theory Spec2Isabelle
  imports Complex_Main
begin

section \<open>The simulated supervisor of dev/simulated\_supervisor.py\<close>

text \<open>
  A shallow embedding of the class \<open>SimulatedSupervisor\<close>: its fields are a record,
  each request handler is a function from the request and the state to an outcome and
  the new state. An exception is the \<open>Inl\<close> of a sum, a handler that waits for a lock
  nobody releases has the outcome \<open>None\<close>.
\<close>

subsection \<open>Python values\<close>

text \<open>
  The values a JSON body decodes to, and the dictionaries the handlers build from them.
  JSON numbers are integers here: a body with a fractional number is outside the model.
\<close>

datatype pyval =
    PNone
  | PBool bool
  | PInt int
  | PStr string
  | PList "pyval list"
  | PDict "(pyval \<times> pyval) list"

type_synonym 'v pydict = "(pyval \<times> 'v) list"

type_synonym bytes = "char list"

datatype error =
    HTTPBadRequest
  | HTTPNotFound
  | HTTPUnauthorized
  | AttributeError
  | KeyError
  | TypeError
  | ValueError
  | RuntimeError
  | JSONDecodeError
  | CorruptArchive
  | ConnectionError

text \<open>Python compares dictionary keys with \<open>==\<close>, under which \<open>True == 1\<close> and \<open>False == 0\<close>.\<close>

fun norm_key :: "pyval \<Rightarrow> pyval" where
  "norm_key (PBool b) = PInt (if b then 1 else 0)"
| "norm_key v = v"

definition key_eq :: "pyval \<Rightarrow> pyval \<Rightarrow> bool" where
  "key_eq a b = (norm_key a = norm_key b)"

fun hashable :: "pyval \<Rightarrow> bool" where
  "hashable (PList xs) = False"
| "hashable (PDict d) = False"
| "hashable v = True"

text \<open>
  A dictionary keeps its keys in insertion order: \<open>d[k] = v\<close> replaces the value of a
  key that is there, in place, and appends a new key at the end.
\<close>

fun dict_get :: "'v pydict \<Rightarrow> pyval \<Rightarrow> 'v option" where
  "dict_get [] k = None"
| "dict_get ((k', v') # d) k = (if key_eq k' k then Some v' else dict_get d k)"

definition dict_contains :: "'v pydict \<Rightarrow> pyval \<Rightarrow> bool" where
  "dict_contains d k = (dict_get d k \<noteq> None)"

fun dict_set :: "'v pydict \<Rightarrow> pyval \<Rightarrow> 'v \<Rightarrow> 'v pydict" where
  "dict_set [] k v = [(k, v)]"
| "dict_set ((k', v') # d) k v =
     (if key_eq k' k then (k', v) # d else (k', v') # dict_set d k v)"

definition dict_del :: "'v pydict \<Rightarrow> pyval \<Rightarrow> 'v pydict" where
  "dict_del d k = filter (\<lambda>(k', v'). \<not> key_eq k' k) d"

text \<open>\<open>d[k] = v\<close> raises TypeError on a list or a dictionary as key.\<close>

definition dict_setitem :: "'v pydict \<Rightarrow> pyval \<Rightarrow> 'v \<Rightarrow> error + 'v pydict" where
  "dict_setitem d k v = (if hashable k then Inr (dict_set d k v) else Inl TypeError)"

text \<open>\<open>del d[k]\<close> raises KeyError on a key that is not there.\<close>

definition dict_delitem :: "'v pydict \<Rightarrow> pyval \<Rightarrow> error + 'v pydict" where
  "dict_delitem d k = (if dict_contains d k then Inr (dict_del d k) else Inl KeyError)"

text \<open>\<open>v[k]\<close> for a string \<open>k\<close>: only a dictionary can be subscripted by a string.\<close>

definition py_getitem :: "pyval \<Rightarrow> string \<Rightarrow> error + pyval" where
  "py_getitem v k =
     (case v of
        PDict d \<Rightarrow> (case dict_get d (PStr k) of None \<Rightarrow> Inl KeyError | Some x \<Rightarrow> Inr x)
      | _ \<Rightarrow> Inl TypeError)"

text \<open>\<open>v.get(k, default)\<close>: only a dictionary has the method.\<close>

definition py_get :: "pyval \<Rightarrow> string \<Rightarrow> pyval \<Rightarrow> error + pyval" where
  "py_get v k dflt =
     (case v of
        PDict d \<Rightarrow> Inr (case dict_get d (PStr k) of None \<Rightarrow> dflt | Some x \<Rightarrow> x)
      | _ \<Rightarrow> Inl AttributeError)"

text \<open>\<open>v.copy()\<close>: dictionaries and lists have the method.\<close>

definition py_copy :: "pyval \<Rightarrow> error + pyval" where
  "py_copy v = (case v of PDict d \<Rightarrow> Inr v | PList xs \<Rightarrow> Inr v | _ \<Rightarrow> Inl AttributeError)"

text \<open>
  \<open>d.update(other)\<close>. A dictionary gives its items; any other iterable is read as a
  sequence of two-element sequences, and the entries before a bad element stay written.
\<close>

fun update_pair :: "pyval \<Rightarrow> error + (pyval \<times> pyval)" where
  "update_pair (PList [k, v]) = Inr (k, v)"
| "update_pair (PList xs) = Inl ValueError"
| "update_pair (PStr [a, b]) = Inr (PStr [a], PStr [b])"
| "update_pair (PStr cs) = Inl ValueError"
| "update_pair (PDict [(k1, v1), (k2, v2)]) = Inr (k1, k2)"
| "update_pair (PDict d) = Inl ValueError"
| "update_pair v = Inl TypeError"

fun update_seq :: "pyval pydict \<Rightarrow> pyval list \<Rightarrow> error option \<times> pyval pydict" where
  "update_seq d [] = (None, d)"
| "update_seq d (x # xs) =
     (case update_pair x of
        Inl e \<Rightarrow> (Some e, d)
      | Inr (k, v) \<Rightarrow>
          (case dict_setitem d k v of
             Inl e \<Rightarrow> (Some e, d)
           | Inr d' \<Rightarrow> update_seq d' xs))"

definition dict_update :: "pyval pydict \<Rightarrow> pyval \<Rightarrow> error option \<times> pyval pydict" where
  "dict_update d other =
     (case other of
        PDict kvs \<Rightarrow> (None, foldl (\<lambda>acc (k, v). dict_set acc k v) d kvs)
      | PList xs \<Rightarrow> update_seq d xs
      | PStr cs \<Rightarrow> update_seq d (map (\<lambda>c. PStr [c]) cs)
      | _ \<Rightarrow> (Some TypeError, d))"

text \<open>\<open>int(x)\<close> truncates towards zero.\<close>

definition py_int :: "real \<Rightarrow> int" where
  "py_int x = (if 0 \<le> x then \<lfloor>x\<rfloor> else \<lceil>x\<rceil>)"

text \<open>\<open>random.uniform(a, b)\<close> is \<open>a + (b - a) * random()\<close>, with \<open>random()\<close> in \<open>[0, 1)\<close>.\<close>

definition random_uniform :: "real \<Rightarrow> int \<Rightarrow> int \<Rightarrow> real" where
  "random_uniform rnd a b = of_int a + (of_int b - of_int a) * rnd"

subsection \<open>Requests, responses and the state of the server\<close>

text \<open>
  What a handler reads of an aiohttp request: the headers, the names bound by the route
  (\<open>match_info\<close>), what \<open>await request.json()\<close> gives (the decoded body, or the
  exception it raises), and the multipart body: \<open>Inl\<close> when \<open>request.multipart()\<close> or
  \<open>reader.next()\<close> raises, \<open>Inr None\<close> when there is no part, and otherwise what the
  successive calls of \<open>read_chunk()\<close> on the first part give; after the last one
  \<open>read_chunk()\<close> gives the empty chunk.
\<close>

record request =
  headers :: "(string \<times> string) list"
  match_info :: "(string \<times> string) list"
  json :: "error + pyval"
  multipart :: "error + (error + bytes) list option"

datatype response =
    JsonResponse pyval
  | TextResponse string
  | BytesResponse bytes
  | EmptyResponse

type_synonym timestamp = nat

text \<open>
  The functions the handlers call that live in other files of the repository
  (\<open>tests/helpers.py\<close> and \<open>dev/base_server.py\<close>) are parameters of the model.
\<close>

record helpers =
  createSnapshotTar ::
    "pyval \<Rightarrow> pyval \<Rightarrow> timestamp \<Rightarrow> int \<Rightarrow> pyval \<Rightarrow> pyval \<Rightarrow> pyval \<Rightarrow> error + bytes"
  parseSnapshotInfo :: "bytes \<Rightarrow> error + pyval"
  serve_bytes :: "request \<Rightarrow> bytes \<Rightarrow> error + response"

text \<open>
  What one request draws from its surroundings: the result of \<open>self.generateId(n)\<close>,
  of \<open>self._time.now()\<close> and of \<open>random.random()\<close>.
\<close>

record ambient =
  generateId :: "nat \<Rightarrow> string"
  time_now :: timestamp
  random_random :: real

record state =
  auth_token :: string
  snapshots :: "pyval pydict"
  snapshot_data :: "bytes pydict"
  snapshot_lock :: bool
  snapshot_inner_lock :: bool
  entities :: "pyval pydict"
  events :: "(pyval \<times> pyval) list"
  attributes :: "pyval pydict"
  notification :: pyval
  min_snapshot_size :: int
  max_snapshot_size :: int
  addon_slug :: string
  options :: pyval
  username :: string
  password :: string
  addons :: "pyval pydict list"
  ports_server :: int

definition defaultOptions :: pyval where
  "defaultOptions = PDict
     [(PStr ''max_snapshots_in_hassio'', PInt 4),
      (PStr ''max_snapshots_in_google_drive'', PInt 4),
      (PStr ''days_between_snapshots'', PInt 3),
      (PStr ''use_ssl'', PBool False)]"

definition installAddon :: "string \<Rightarrow> string \<Rightarrow> string \<Rightarrow> bool \<Rightarrow> bool \<Rightarrow> state \<Rightarrow> state" where
  "installAddon slug name version boot started s =
     (let installed =
        [(PStr ''name'', PStr (''Name for '' @ name)),
         (PStr ''slug'', PStr slug),
         (PStr ''description'', PStr (slug @ '' description'')),
         (PStr ''version'', PStr version),
         (PStr ''watchdog'', PBool False),
         (PStr ''boot'', PStr (if boot then ''auto'' else ''manual'')),
         (PStr ''ingress_entry'', PStr (''/api/hassio_ingress/'' @ slug)),
         (PStr ''state'', PStr (if started then ''started'' else ''stopped''))]
      in s\<lparr>addons := addons s @ [installed]\<rparr>)"

text \<open>
  \<open>__init__\<close>. The table \<open>all_addons\<close> of \<open>tests/helpers.py\<close> and the port of the
  injected \<open>Ports\<close> are parameters.
\<close>

definition init :: "pyval pydict list \<Rightarrow> int \<Rightarrow> state" where
  "init all_addons port =
     installAddon ''sgadg'' ''sdgsagsdgsggsd'' ''v1.0'' True True
      (installAddon ''42'' ''The answer'' ''v1.0'' True True
        (installAddon ''self_slug'' ''Home Assistant Google drive Backup'' ''v1.0'' True True
          \<lparr>auth_token = ''test_header'',
           snapshots = [],
           snapshot_data = [],
           snapshot_lock = False,
           snapshot_inner_lock = False,
           entities = [],
           events = [],
           attributes = [],
           notification = PNone,
           min_snapshot_size = 1024 * 1024 * 3,
           max_snapshot_size = 1024 * 1024 * 5,
           addon_slug = ''self_slug'',
           options = defaultOptions,
           username = ''user'',
           password = ''pass'',
           addons = all_addons,
           ports_server = port\<rparr>))"

subsection \<open>The locks\<close>

text \<open>
  An \<open>asyncio.Lock\<close> is its flag. \<open>acquire()\<close> on a held lock waits (\<open>None\<close>),
  \<open>release()\<close> on a free one raises RuntimeError.
\<close>

definition lock_acquire :: "bool \<Rightarrow> bool option" where
  "lock_acquire locked = (if locked then None else Some True)"

definition lock_release :: "bool \<Rightarrow> error + bool" where
  "lock_release locked = (if locked then Inr False else Inl RuntimeError)"

definition toggleBlockSnapshot :: "state \<Rightarrow> (error + unit) option \<times> state" where
  "toggleBlockSnapshot s =
     (if snapshot_lock s then
        (case lock_release (snapshot_lock s) of
           Inl e \<Rightarrow> (Some (Inl e), s)
         | Inr l \<Rightarrow> (Some (Inr ()), s\<lparr>snapshot_lock := l\<rparr>))
      else
        (case lock_acquire (snapshot_lock s) of
           None \<Rightarrow> (None, s)
         | Some l \<Rightarrow> (Some (Inr ()), s\<lparr>snapshot_lock := l\<rparr>)))"

subsection \<open>The handlers\<close>

definition formatErrorResponse :: "string \<Rightarrow> response" where
  "formatErrorResponse err = JsonResponse (PDict [(PStr ''result'', PStr err)])"

definition formatDataResponse :: "pyval \<Rightarrow> response" where
  "formatDataResponse d = JsonResponse (PDict [(PStr ''result'', PStr ''ok''), (PStr ''data'', d)])"

text \<open>\<open>request.headers.get(name, None)\<close>.\<close>

definition header_get :: "request \<Rightarrow> string \<Rightarrow> string option" where
  "header_get r name = map_of (headers r) name"

text \<open>\<open>request.match_info.get(name)\<close>: a string, or None.\<close>

definition match_get :: "request \<Rightarrow> string \<Rightarrow> pyval" where
  "match_get r name = (case map_of (match_info r) name of None \<Rightarrow> PNone | Some v \<Rightarrow> PStr v)"

definition verifyHeader :: "state \<Rightarrow> request \<Rightarrow> error + unit" where
  "verifyHeader s r =
     (if header_get r ''X-Supervisor-Token'' = Some (auth_token s) then Inr ()
      else if header_get r ''Authorization'' = Some (''Bearer '' @ auth_token s) then Inr ()
      else Inl HTTPUnauthorized)"

type_synonym outcome = "(error + response) \<times> state"

definition getSnapshots :: "request \<Rightarrow> state \<Rightarrow> outcome" where
  "getSnapshots r s =
     (case verifyHeader s r of
        Inl e \<Rightarrow> (Inl e, s)
      | Inr _ \<Rightarrow>
          (Inr (formatDataResponse (PDict [(PStr ''snapshots'', PList (map snd (snapshots s)))])), s))"

text \<open>
  The loops of \<open>_stopAddon\<close> and \<open>_startAddon\<close>: the first add-on with the slug and in
  the state \<open>from\<close> is moved to the state \<open>to\<close>; None when the loop ends without.
\<close>

definition addon_slug_is :: "pyval pydict \<Rightarrow> pyval \<Rightarrow> bool" where
  "addon_slug_is addon slug =
     ((case dict_get addon (PStr ''slug'') of None \<Rightarrow> PStr [] | Some v \<Rightarrow> v) = slug)"

fun switch_addon :: "pyval \<Rightarrow> string \<Rightarrow> string \<Rightarrow> pyval pydict list \<Rightarrow> pyval pydict list option" where
  "switch_addon slug from to [] = None"
| "switch_addon slug from to (addon # rest) =
     (if addon_slug_is addon slug \<and> dict_get addon (PStr ''state'') = Some (PStr from)
      then Some (dict_set addon (PStr ''state'') (PStr to) # rest)
      else map_option ((#) addon) (switch_addon slug from to rest))"

definition stopAddon :: "request \<Rightarrow> state \<Rightarrow> outcome" where
  "stopAddon r s =
     (case verifyHeader s r of
        Inl e \<Rightarrow> (Inl e, s)
      | Inr _ \<Rightarrow>
          (case switch_addon (match_get r ''slug'') ''started'' ''stopped'' (addons s) of
             Some as \<Rightarrow> (Inr (formatDataResponse (PDict [])), s\<lparr>addons := as\<rparr>)
           | None \<Rightarrow> (Inl HTTPBadRequest, s)))"

definition startAddon :: "request \<Rightarrow> state \<Rightarrow> outcome" where
  "startAddon r s =
     (case verifyHeader s r of
        Inl e \<Rightarrow> (Inl e, s)
      | Inr _ \<Rightarrow>
          (case switch_addon (match_get r ''slug'') ''stopped'' ''started'' (addons s) of
             Some as \<Rightarrow> (Inr (formatDataResponse (PDict [])), s\<lparr>addons := as\<rparr>)
           | None \<Rightarrow> (Inl HTTPBadRequest, s)))"

text \<open>\<open>d.get(k)\<close>, None when the key is not there.\<close>

definition dict_get_none :: "pyval pydict \<Rightarrow> string \<Rightarrow> pyval" where
  "dict_get_none d k = (case dict_get d (PStr k) of None \<Rightarrow> PNone | Some x \<Rightarrow> x)"

definition addonInfo :: "request \<Rightarrow> state \<Rightarrow> outcome" where
  "addonInfo r s =
     (case verifyHeader s r of
        Inl e \<Rightarrow> (Inl e, s)
      | Inr _ \<Rightarrow>
          (case find (\<lambda>addon. addon_slug_is addon (match_get r ''slug'')) (addons s) of
             Some addon \<Rightarrow>
               (Inr (formatDataResponse (PDict
                  [(PStr ''boot'', dict_get_none addon ''boot''),
                   (PStr ''watchdog'', dict_get_none addon ''watchdog''),
                   (PStr ''state'', dict_get_none addon ''state'')])), s)
           | None \<Rightarrow> (Inl HTTPBadRequest, s)))"

definition supervisorInfo :: "request \<Rightarrow> state \<Rightarrow> outcome" where
  "supervisorInfo r s =
     (case verifyHeader s r of
        Inl e \<Rightarrow> (Inl e, s)
      | Inr _ \<Rightarrow>
          (Inr (formatDataResponse (PDict [(PStr ''addons'', PList (map PDict (addons s)))])), s))"

definition supervisorLogs :: "request \<Rightarrow> state \<Rightarrow> outcome" where
  "supervisorLogs r s =
     (case verifyHeader s r of
        Inl e \<Rightarrow> (Inl e, s)
      | Inr _ \<Rightarrow>
          (Inr (TextResponse (''Supervisor Log line 1'' @ [CHR 0x0A] @ ''Supervisor Log Line 2'')), s))"

definition coreLogs :: "request \<Rightarrow> state \<Rightarrow> outcome" where
  "coreLogs r s =
     (case verifyHeader s r of
        Inl e \<Rightarrow> (Inl e, s)
      | Inr _ \<Rightarrow> (Inr (TextResponse (''Core Log line 1'' @ [CHR 0x0A] @ ''Core Log Line 2'')), s))"

definition coreInfo :: "request \<Rightarrow> state \<Rightarrow> outcome" where
  "coreInfo r s =
     (case verifyHeader s r of
        Inl e \<Rightarrow> (Inl e, s)
      | Inr _ \<Rightarrow>
          (Inr (formatDataResponse (PDict
             [(PStr ''version'', PStr ''1.3.3.7''),
              (PStr ''last_version'', PStr ''1.3.3.8''),
              (PStr ''machine'', PStr ''VS Dev''),
              (PStr ''ip_address'', PStr ''127.0.0.1''),
              (PStr ''arch'', PStr ''x86''),
              (PStr ''image'', PStr ''image''),
              (PStr ''custom'', PStr ''false''),
              (PStr ''boot'', PStr ''true''),
              (PStr ''port'', PInt (ports_server s)),
              (PStr ''ssl'', PStr ''false''),
              (PStr ''watchdog'', PStr ''what is this''),
              (PStr ''wait_boot'', PStr ''so many arguments'')])), s))"

subsection \<open>Creating a snapshot\<close>

text \<open>
  Lines 210 to 223 of \<open>_newSnapshot\<close>, the statements under both locks after the
  check of the header.
\<close>

definition newSnapshot_body :: "helpers \<Rightarrow> ambient \<Rightarrow> pyval \<Rightarrow> state \<Rightarrow> outcome" where
  "newSnapshot_body h a input_json s =
     (let slug = PStr (generateId a 8) in
      case py_get input_json ''password'' PNone of
        Inl e \<Rightarrow> (Inl e, s)
      | Inr passwd \<Rightarrow>
      (case py_get input_json ''name'' (PStr ''Default name'') of
        Inl e \<Rightarrow> (Inl e, s)
      | Inr name \<Rightarrow>
      (let date = time_now a;
           padSize = py_int (random_uniform (random_random a) (min_snapshot_size s) (max_snapshot_size s))
       in
       case py_get input_json ''folders'' PNone of
        Inl e \<Rightarrow> (Inl e, s)
      | Inr folders \<Rightarrow>
      (case py_get input_json ''addons'' PNone of
        Inl e \<Rightarrow> (Inl e, s)
      | Inr included_addons \<Rightarrow>
      (case createSnapshotTar h slug name date padSize folders included_addons passwd of
        Inl e \<Rightarrow> (Inl e, s)
      | Inr data \<Rightarrow>
      (case parseSnapshotInfo h data of
        Inl e \<Rightarrow> (Inl e, s)
      | Inr snapshot_info \<Rightarrow>
      (case dict_setitem (snapshots s) slug snapshot_info of
        Inl e \<Rightarrow> (Inl e, s)
      | Inr d1 \<Rightarrow>
      (let s1 = s\<lparr>snapshots := d1\<rparr> in
       case dict_setitem (snapshot_data s1) slug data of
        Inl e \<Rightarrow> (Inl e, s1)
      | Inr d2 \<Rightarrow>
          (Inr (formatDataResponse (PDict [(PStr ''slug'', slug)])),
           s1\<lparr>snapshot_data := d2\<rparr>)))))))))"

text \<open>
  \<open>_newSnapshot\<close> as a machine, one step for each statement that looks at a lock, reads
  the request or enters or leaves an \<open>async with\<close>: the place in the code, with the
  values the later statements need.
\<close>

datatype pc =
    Entry
  | ReadJson
  | AcquireOuter pyval
  | AcquireInner pyval
  | VerifyHeader pyval
  | Body pyval
  | ReleaseInner "error + response"
  | ReleaseOuter "error + response"
  | Finished "error + response"

fun newSnapshot_step :: "helpers \<Rightarrow> ambient \<Rightarrow> request \<Rightarrow> pc \<times> state \<Rightarrow> pc \<times> state" where
  "newSnapshot_step h a r (Entry, s) =
     (if snapshot_lock s then (Finished (Inl HTTPBadRequest), s) else (ReadJson, s))"
| "newSnapshot_step h a r (ReadJson, s) =
     (case json r of
        Inl e \<Rightarrow> (Finished (Inl e), s)
      | Inr input_json \<Rightarrow> (AcquireOuter input_json, s))"
| "newSnapshot_step h a r (AcquireOuter j, s) =
     (case lock_acquire (snapshot_lock s) of
        None \<Rightarrow> (AcquireOuter j, s)
      | Some l \<Rightarrow> (AcquireInner j, s\<lparr>snapshot_lock := l\<rparr>))"
| "newSnapshot_step h a r (AcquireInner j, s) =
     (case lock_acquire (snapshot_inner_lock s) of
        None \<Rightarrow> (AcquireInner j, s)
      | Some l \<Rightarrow> (VerifyHeader j, s\<lparr>snapshot_inner_lock := l\<rparr>))"
| "newSnapshot_step h a r (VerifyHeader j, s) =
     (case verifyHeader s r of
        Inl e \<Rightarrow> (ReleaseInner (Inl e), s)
      | Inr _ \<Rightarrow> (Body j, s))"
| "newSnapshot_step h a r (Body j, s) =
     (case newSnapshot_body h a j s of (res, s') \<Rightarrow> (ReleaseInner res, s'))"
| "newSnapshot_step h a r (ReleaseInner res, s) =
     (case lock_release (snapshot_inner_lock s) of
        Inl e \<Rightarrow> (ReleaseOuter (Inl e), s)
      | Inr l \<Rightarrow> (ReleaseOuter res, s\<lparr>snapshot_inner_lock := l\<rparr>))"
| "newSnapshot_step h a r (ReleaseOuter res, s) =
     (case lock_release (snapshot_lock s) of
        Inl e \<Rightarrow> (Finished (Inl e), s)
      | Inr l \<Rightarrow> (Finished res, s\<lparr>snapshot_lock := l\<rparr>))"
| "newSnapshot_step h a r (Finished res, s) = (Finished res, s)"

text \<open>The place and the state after \<open>n\<close> steps of a request that starts in \<open>s\<close>.\<close>

definition newSnapshot_at :: "helpers \<Rightarrow> ambient \<Rightarrow> request \<Rightarrow> state \<Rightarrow> nat \<Rightarrow> pc \<times> state" where
  "newSnapshot_at h a r s n = (newSnapshot_step h a r ^^ n) (Entry, s)"

text \<open>
  The whole handler, run alone: the longest path from \<open>Entry\<close> to \<open>Finished\<close> has eight
  steps, and a request that is not finished by then waits for a lock that is held.
\<close>

definition newSnapshot :: "helpers \<Rightarrow> ambient \<Rightarrow> request \<Rightarrow> state \<Rightarrow> (error + response) option \<times> state" where
  "newSnapshot h a r s =
     (case newSnapshot_at h a r s 8 of
        (Finished res, s') \<Rightarrow> (Some res, s')
      | (_, s') \<Rightarrow> (None, s'))"

subsection \<open>Upload, delete, detail, download\<close>

text \<open>The loop of lines 231 to 235.\<close>

fun read_chunks :: "(error + bytes) list \<Rightarrow> bytes \<Rightarrow> error + bytes" where
  "read_chunks [] received_bytes = Inr received_bytes"
| "read_chunks (Inl e # rest) received_bytes = Inl e"
| "read_chunks (Inr chunk # rest) received_bytes =
     (if chunk = [] then Inr received_bytes else read_chunks rest (received_bytes @ chunk))"

text \<open>The body of the \<open>try\<close> of \<open>_uploadSnapshot\<close>.\<close>

definition uploadSnapshot_try :: "helpers \<Rightarrow> request \<Rightarrow> state \<Rightarrow> outcome" where
  "uploadSnapshot_try h r s =
     (case multipart r of
        Inl e \<Rightarrow> (Inl e, s)
      | Inr None \<Rightarrow> (Inl AttributeError, s)
      | Inr (Some chunks) \<Rightarrow>
      (case read_chunks chunks [] of
        Inl e \<Rightarrow> (Inl e, s)
      | Inr received_bytes \<Rightarrow>
      (case parseSnapshotInfo h received_bytes of
        Inl e \<Rightarrow> (Inl e, s)
      | Inr info \<Rightarrow>
      (case py_getitem info ''slug'' of
        Inl e \<Rightarrow> (Inl e, s)
      | Inr slug \<Rightarrow>
      (case dict_setitem (snapshots s) slug info of
        Inl e \<Rightarrow> (Inl e, s)
      | Inr d1 \<Rightarrow>
      (let s1 = s\<lparr>snapshots := d1\<rparr> in
       case dict_setitem (snapshot_data s1) slug received_bytes of
        Inl e \<Rightarrow> (Inl e, s1)
      | Inr d2 \<Rightarrow>
          (Inr (formatDataResponse (PDict [(PStr ''slug'', slug)])),
           s1\<lparr>snapshot_data := d2\<rparr>)))))))"

definition uploadSnapshot :: "helpers \<Rightarrow> request \<Rightarrow> state \<Rightarrow> outcome" where
  "uploadSnapshot h r s =
     (case verifyHeader s r of
        Inl e \<Rightarrow> (Inl e, s)
      | Inr _ \<Rightarrow>
          (case uploadSnapshot_try h r s of
             (Inl e, s') \<Rightarrow> (Inr (formatErrorResponse ''Bad snapshot''), s')
           | (Inr resp, s') \<Rightarrow> (Inr resp, s')))"

definition deleteSnapshot :: "request \<Rightarrow> state \<Rightarrow> outcome" where
  "deleteSnapshot r s =
     (case verifyHeader s r of
        Inl e \<Rightarrow> (Inl e, s)
      | Inr _ \<Rightarrow>
          (let slug = match_get r ''slug'' in
           if \<not> dict_contains (snapshots s) slug then (Inl HTTPNotFound, s)
           else
             (case dict_delitem (snapshots s) slug of
                Inl e \<Rightarrow> (Inl e, s)
              | Inr d1 \<Rightarrow>
                  (let s1 = s\<lparr>snapshots := d1\<rparr> in
                   case dict_delitem (snapshot_data s1) slug of
                     Inl e \<Rightarrow> (Inl e, s1)
                   | Inr d2 \<Rightarrow>
                       (Inr (formatDataResponse (PStr ''deleted'')), s1\<lparr>snapshot_data := d2\<rparr>)))))"

definition snapshotDetail :: "request \<Rightarrow> state \<Rightarrow> outcome" where
  "snapshotDetail r s =
     (case verifyHeader s r of
        Inl e \<Rightarrow> (Inl e, s)
      | Inr _ \<Rightarrow>
          (let slug = match_get r ''slug'' in
           case dict_get (snapshots s) slug of
             None \<Rightarrow> (Inl HTTPNotFound, s)
           | Some info \<Rightarrow> (Inr (formatDataResponse info), s)))"

definition snapshotDownload :: "helpers \<Rightarrow> request \<Rightarrow> state \<Rightarrow> outcome" where
  "snapshotDownload h r s =
     (case verifyHeader s r of
        Inl e \<Rightarrow> (Inl e, s)
      | Inr _ \<Rightarrow>
          (let slug = match_get r ''slug'' in
           case dict_get (snapshot_data s) slug of
             None \<Rightarrow> (Inl HTTPNotFound, s)
           | Some data \<Rightarrow>
               (case serve_bytes h r data of
                  Inl e \<Rightarrow> (Inl e, s)
                | Inr resp \<Rightarrow> (Inr resp, s))))"

subsection \<open>The remaining handlers\<close>

definition selfInfo :: "request \<Rightarrow> state \<Rightarrow> outcome" where
  "selfInfo r s =
     (case verifyHeader s r of
        Inl e \<Rightarrow> (Inl e, s)
      | Inr _ \<Rightarrow>
          (Inr (formatDataResponse (PDict
             [(PStr ''webui'', PStr ''http://some/address''),
              (PStr ''ingress_url'', PStr ''fill me in later''),
              (PStr ''slug'', PStr (addon_slug s)),
              (PStr ''options'', options s)])), s))"

definition miscInfo :: "request \<Rightarrow> state \<Rightarrow> outcome" where
  "miscInfo r s =
     (case verifyHeader s r of
        Inl e \<Rightarrow> (Inl e, s)
      | Inr _ \<Rightarrow>
          (Inr (formatDataResponse (PDict
             [(PStr ''supervisor'', PStr ''super version''),
              (PStr ''homeassistant'', PStr ''ha version''),
              (PStr ''hassos'', PStr ''hassos version''),
              (PStr ''hostname'', PStr ''hostname''),
              (PStr ''machine'', PStr ''machine''),
              (PStr ''arch'', PStr ''Arch''),
              (PStr ''supported_arch'', PStr ''supported arch''),
              (PStr ''channel'', PStr ''channel'')])), s))"

definition authenticate :: "request \<Rightarrow> state \<Rightarrow> outcome" where
  "authenticate r s =
     (case verifyHeader s r of
        Inl e \<Rightarrow> (Inl e, s)
      | Inr _ \<Rightarrow>
      (case json r of
        Inl e \<Rightarrow> (Inl e, s)
      | Inr input_json \<Rightarrow>
      (case py_get input_json ''username'' PNone of
        Inl e \<Rightarrow> (Inl e, s)
      | Inr u \<Rightarrow>
          if u \<noteq> PStr (username s) then (Inl HTTPBadRequest, s)
          else
            (case py_get input_json ''password'' PNone of
               Inl e \<Rightarrow> (Inl e, s)
             | Inr p \<Rightarrow>
                 if p \<noteq> PStr (password s) then (Inl HTTPBadRequest, s)
                 else (Inr (formatDataResponse (PDict [])), s)))))"

text \<open>
  \<open>self.addon(slug)\<close>: the place of the first add-on whose \<open>"slug"\<close> is the slug, None
  when there is none; an add-on before it that has no \<open>"slug"\<close> raises KeyError.
\<close>

fun addon :: "pyval pydict list \<Rightarrow> pyval \<Rightarrow> error + nat option" where
  "addon [] slug = Inr None"
| "addon (a # rest) slug =
     (case dict_get a (PStr ''slug'') of
        None \<Rightarrow> Inl KeyError
      | Some v \<Rightarrow>
          if v = slug then Inr (Some 0)
          else (case addon rest slug of
                  Inl e \<Rightarrow> Inl e
                | Inr None \<Rightarrow> Inr None
                | Inr (Some i) \<Rightarrow> Inr (Some (Suc i))))"

text \<open>
  In the \<open>else\<close> branch of \<open>_updateOptions\<close>, \<open>self.addon(slug).update\<close> is looked up
  before the body of the request is read, and no header is checked.
\<close>

definition updateOptions :: "request \<Rightarrow> state \<Rightarrow> outcome" where
  "updateOptions r s =
     (let slug = match_get r ''slug'' in
      if slug = PStr ''self'' then
        (case verifyHeader s r of
           Inl e \<Rightarrow> (Inl e, s)
         | Inr _ \<Rightarrow>
         (case json r of
           Inl e \<Rightarrow> (Inl e, s)
         | Inr j \<Rightarrow>
         (case py_getitem j ''options'' of
           Inl e \<Rightarrow> (Inl e, s)
         | Inr opts \<Rightarrow>
         (case py_copy opts of
           Inl e \<Rightarrow> (Inl e, s)
         | Inr c \<Rightarrow> (Inr (formatDataResponse (PDict [])), s\<lparr>options := c\<rparr>)))))
      else
        (case addon (addons s) slug of
           Inl e \<Rightarrow> (Inl e, s)
         | Inr None \<Rightarrow> (Inl AttributeError, s)
         | Inr (Some i) \<Rightarrow>
         (case json r of
           Inl e \<Rightarrow> (Inl e, s)
         | Inr j \<Rightarrow>
         (case dict_update (addons s ! i) j of
           (err, a') \<Rightarrow>
             (let s' = s\<lparr>addons := (addons s)[i := a']\<rparr> in
              case err of
                Some e \<Rightarrow> (Inl e, s')
              | None \<Rightarrow> (Inr (formatDataResponse (PDict [])), s'))))))"

definition haStateUpdate :: "request \<Rightarrow> state \<Rightarrow> outcome" where
  "haStateUpdate r s =
     (case verifyHeader s r of
        Inl e \<Rightarrow> (Inl e, s)
      | Inr _ \<Rightarrow>
      (let entity = match_get r ''entity'' in
       case json r of
        Inl e \<Rightarrow> (Inl e, s)
      | Inr j \<Rightarrow>
      (case py_getitem j ''state'' of
        Inl e \<Rightarrow> (Inl e, s)
      | Inr st \<Rightarrow>
      (let s1 = s\<lparr>entities := dict_set (entities s) entity st\<rparr> in
       case py_getitem j ''attributes'' of
        Inl e \<Rightarrow> (Inl e, s1)
      | Inr attrs \<Rightarrow>
          (Inr EmptyResponse, s1\<lparr>attributes := dict_set (attributes s1) entity attrs\<rparr>)))))"

definition haEventUpdate :: "request \<Rightarrow> state \<Rightarrow> outcome" where
  "haEventUpdate r s =
     (case verifyHeader s r of
        Inl e \<Rightarrow> (Inl e, s)
      | Inr _ \<Rightarrow>
      (let name = match_get r ''name'' in
       case json r of
        Inl e \<Rightarrow> (Inl e, s)
      | Inr j \<Rightarrow> (Inr EmptyResponse, s\<lparr>events := events s @ [(name, j)]\<rparr>)))"

definition createNotification :: "request \<Rightarrow> state \<Rightarrow> outcome" where
  "createNotification r s =
     (case verifyHeader s r of
        Inl e \<Rightarrow> (Inl e, s)
      | Inr _ \<Rightarrow>
      (case json r of
        Inl e \<Rightarrow> (Inl e, s)
      | Inr n \<Rightarrow>
      (case py_copy n of
        Inl e \<Rightarrow> (Inl e, s)
      | Inr c \<Rightarrow> (Inr EmptyResponse, s\<lparr>notification := c\<rparr>))))"

definition dismissNotification :: "request \<Rightarrow> state \<Rightarrow> outcome" where
  "dismissNotification r s =
     (case verifyHeader s r of
        Inl e \<Rightarrow> (Inl e, s)
      | Inr _ \<Rightarrow>
      (case json r of
        Inl e \<Rightarrow> (Inl e, s)
      | Inr j \<Rightarrow> (Inr EmptyResponse, s\<lparr>notification := PNone\<rparr>)))"

subsection \<open>The routes\<close>

text \<open>The handlers that \<open>routes()\<close> binds to the paths, one constructor for each.\<close>

datatype handler =
    UpdateOptions
  | DismissNotification
  | CreateNotification
  | HaEventUpdate
  | HaStateUpdate
  | Authenticate
  | MiscInfo
  | SelfInfo
  | AddonInfo
  | SnapshotDownload
  | SnapshotDetail
  | StartAddon
  | StopAddon
  | DeleteSnapshot
  | UploadSnapshot
  | NewSnapshot
  | CoreInfo
  | SupervisorInfo
  | SupervisorLogs
  | CoreLogs
  | GetSnapshots

definition returns :: "outcome \<Rightarrow> (error + response) option \<times> state" where
  "returns out = (Some (fst out), snd out)"

fun handle :: "helpers \<Rightarrow> ambient \<Rightarrow> handler \<Rightarrow> request \<Rightarrow> state \<Rightarrow> (error + response) option \<times> state" where
  "handle h a UpdateOptions r s = returns (updateOptions r s)"
| "handle h a DismissNotification r s = returns (dismissNotification r s)"
| "handle h a CreateNotification r s = returns (createNotification r s)"
| "handle h a HaEventUpdate r s = returns (haEventUpdate r s)"
| "handle h a HaStateUpdate r s = returns (haStateUpdate r s)"
| "handle h a Authenticate r s = returns (authenticate r s)"
| "handle h a MiscInfo r s = returns (miscInfo r s)"
| "handle h a SelfInfo r s = returns (selfInfo r s)"
| "handle h a AddonInfo r s = returns (addonInfo r s)"
| "handle h a SnapshotDownload r s = returns (snapshotDownload h r s)"
| "handle h a SnapshotDetail r s = returns (snapshotDetail r s)"
| "handle h a StartAddon r s = returns (startAddon r s)"
| "handle h a StopAddon r s = returns (stopAddon r s)"
| "handle h a DeleteSnapshot r s = returns (deleteSnapshot r s)"
| "handle h a UploadSnapshot r s = returns (uploadSnapshot h r s)"
| "handle h a NewSnapshot r s = newSnapshot h a r s"
| "handle h a CoreInfo r s = returns (coreInfo r s)"
| "handle h a SupervisorInfo r s = returns (supervisorInfo r s)"
| "handle h a SupervisorLogs r s = returns (supervisorLogs r s)"
| "handle h a CoreLogs r s = returns (coreLogs r s)"
| "handle h a GetSnapshots r s = returns (getSnapshots r s)"

text \<open>
  What happens to a server, one after the other: a request to a handler, or a call of
  \<open>toggleBlockSnapshot\<close> by the test that drives it.
\<close>

datatype op = Request handler ambient request | Toggle

fun apply_op :: "helpers \<Rightarrow> op \<Rightarrow> state \<Rightarrow> state" where
  "apply_op h (Request hdl a r) s = snd (handle h a hdl r s)"
| "apply_op h Toggle s = snd (toggleBlockSnapshot s)"

fun run :: "helpers \<Rightarrow> op list \<Rightarrow> state \<Rightarrow> state" where
  "run h [] s = s"
| "run h (x # xs) s = run h xs (apply_op h x s)"

definition toggles :: "op list \<Rightarrow> nat" where
  "toggles ops = length (filter (\<lambda>x. x = Toggle) ops)"

subsection \<open>The archive codec and the helpers of the base server\<close>

text \<open>
  Modelled from the spec: \<open>createSnapshotTar\<close> and \<open>parseSnapshotInfo\<close> are in
  \<open>tests/helpers.py\<close>, \<open>generateId\<close> and \<open>serve_bytes\<close> in \<open>dev/base_server.py\<close>,
  and neither file is among the sources. The spec's Encode serialises the fields into
  a self-describing container followed by \<open>padSize\<close> bytes of filler, and marks the
  container protected when the password is not empty; Decode is its inverse and
  rejects structurally invalid input with CorruptArchive. The layout is free: here
  every number is a base-128 varint, every string its length and its bytes, every list
  its length and its elements, and the protection marker is one byte.
\<close>

record metadata =
  md_id :: string
  md_name :: string
  md_created_at :: timestamp
  md_size :: nat
  md_included_folders :: "string list"
  md_included_addons :: "string list"
  md_protected :: bool
  md_partial :: bool

fun enc_nat :: "nat \<Rightarrow> bytes" where
  "enc_nat n = (if n < 128 then [char_of n] else char_of (128 + n mod 128) # enc_nat (n div 128))"

declare enc_nat.simps [simp del]

fun dec_nat :: "bytes \<Rightarrow> (nat \<times> bytes) option" where
  "dec_nat [] = None"
| "dec_nat (c # cs) =
     (if (of_char c :: nat) < 128 then Some (of_char c, cs)
      else (case dec_nat cs of
              None \<Rightarrow> None
            | Some (n, rest) \<Rightarrow> Some (of_char c - 128 + 128 * n, rest)))"

definition enc_str :: "string \<Rightarrow> bytes" where
  "enc_str s = enc_nat (length s) @ s"

definition dec_str :: "bytes \<Rightarrow> (string \<times> bytes) option" where
  "dec_str bs =
     (case dec_nat bs of
        None \<Rightarrow> None
      | Some (n, rest) \<Rightarrow> if n \<le> length rest then Some (take n rest, drop n rest) else None)"

definition enc_strs :: "string list \<Rightarrow> bytes" where
  "enc_strs xs = enc_nat (length xs) @ concat (map enc_str xs)"

fun dec_n_strs :: "nat \<Rightarrow> bytes \<Rightarrow> (string list \<times> bytes) option" where
  "dec_n_strs 0 bs = Some ([], bs)"
| "dec_n_strs (Suc n) bs =
     (case dec_str bs of
        None \<Rightarrow> None
      | Some (x, rest) \<Rightarrow>
          (case dec_n_strs n rest of
             None \<Rightarrow> None
           | Some (xs, rest') \<Rightarrow> Some (x # xs, rest')))"

definition dec_strs :: "bytes \<Rightarrow> (string list \<times> bytes) option" where
  "dec_strs bs =
     (case dec_nat bs of
        None \<Rightarrow> None
      | Some (n, rest) \<Rightarrow> dec_n_strs n rest)"

definition enc_flag :: "bool \<Rightarrow> bytes" where
  "enc_flag b = [if b then CHR 0x01 else CHR 0x00]"

fun dec_flag :: "bytes \<Rightarrow> (bool \<times> bytes) option" where
  "dec_flag [] = None"
| "dec_flag (c # cs) =
     (if c = CHR 0x01 then Some (True, cs) else if c = CHR 0x00 then Some (False, cs) else None)"

definition container :: "string \<Rightarrow> string \<Rightarrow> timestamp \<Rightarrow> string list \<Rightarrow> string list \<Rightarrow> string \<Rightarrow> bytes" where
  "container ident name ts folders addns passwd =
     enc_str ident @ enc_str name @ enc_nat ts @ enc_strs folders @ enc_strs addns
       @ enc_flag (passwd \<noteq> [])"

definition Encode :: "string \<Rightarrow> string \<Rightarrow> timestamp \<Rightarrow> nat \<Rightarrow> string list \<Rightarrow> string list \<Rightarrow> string \<Rightarrow> bytes" where
  "Encode ident name ts padSize folders addns passwd =
     container ident name ts folders addns passwd @ replicate padSize (CHR 0x00)"

definition Decode :: "bytes \<Rightarrow> error + metadata" where
  "Decode bs =
     (case dec_str bs of
        None \<Rightarrow> Inl CorruptArchive
      | Some (ident, r1) \<Rightarrow>
     (case dec_str r1 of
        None \<Rightarrow> Inl CorruptArchive
      | Some (name, r2) \<Rightarrow>
     (case dec_nat r2 of
        None \<Rightarrow> Inl CorruptArchive
      | Some (ts, r3) \<Rightarrow>
     (case dec_strs r3 of
        None \<Rightarrow> Inl CorruptArchive
      | Some (folders, r4) \<Rightarrow>
     (case dec_strs r4 of
        None \<Rightarrow> Inl CorruptArchive
      | Some (addns, r5) \<Rightarrow>
     (case dec_flag r5 of
        None \<Rightarrow> Inl CorruptArchive
      | Some (prot, padding) \<Rightarrow>
          Inr \<lparr>md_id = ident, md_name = name, md_created_at = ts, md_size = length bs,
               md_included_folders = folders, md_included_addons = addns,
               md_protected = prot,
               md_partial = (folders \<noteq> [] \<or> addns \<noteq> [])\<rparr>))))))"

text \<open>
  The record as the dictionary the handlers store; \<open>_uploadSnapshot\<close> reads the
  identifier as \<open>info['slug']\<close>.
\<close>

definition metadata_info :: "metadata \<Rightarrow> pyval" where
  "metadata_info m = PDict
     [(PStr ''slug'', PStr (md_id m)),
      (PStr ''name'', PStr (md_name m)),
      (PStr ''created_at'', PInt (int (md_created_at m))),
      (PStr ''size'', PInt (int (md_size m))),
      (PStr ''included_folders'', PList (map PStr (md_included_folders m))),
      (PStr ''included_addons'', PList (map PStr (md_included_addons m))),
      (PStr ''protected'', PBool (md_protected m)),
      (PStr ''type'', PStr (if md_partial m then ''partial'' else ''full''))]"

text \<open>
  The arguments as \<open>_newSnapshot\<close> passes them: a string is wanted for the identifier
  and the name, a string or None for the password, a list of strings or None for the
  folders and the add-ons; anything else is outside the domain of Encode and raises
  TypeError.
\<close>

fun the_str :: "pyval \<Rightarrow> string option" where
  "the_str (PStr s) = Some s"
| "the_str v = None"

fun the_strs :: "pyval list \<Rightarrow> string list option" where
  "the_strs [] = Some []"
| "the_strs (v # vs) =
     (case the_str v of
        None \<Rightarrow> None
      | Some x \<Rightarrow> (case the_strs vs of None \<Rightarrow> None | Some xs \<Rightarrow> Some (x # xs)))"

fun opt_str :: "pyval \<Rightarrow> string option" where
  "opt_str PNone = Some []"
| "opt_str (PStr s) = Some s"
| "opt_str v = None"

fun opt_strs :: "pyval \<Rightarrow> string list option" where
  "opt_strs PNone = Some []"
| "opt_strs (PList vs) = the_strs vs"
| "opt_strs v = None"

definition spec_createSnapshotTar ::
    "pyval \<Rightarrow> pyval \<Rightarrow> timestamp \<Rightarrow> int \<Rightarrow> pyval \<Rightarrow> pyval \<Rightarrow> pyval \<Rightarrow> error + bytes" where
  "spec_createSnapshotTar slug name date padSize folders addns passwd =
     (case (the_str slug, the_str name, opt_strs folders, opt_strs addns, opt_str passwd) of
        (Some i, Some n, Some fs, Some as, Some p) \<Rightarrow> Inr (Encode i n date (nat padSize) fs as p)
      | _ \<Rightarrow> Inl TypeError)"

definition spec_parseSnapshotInfo :: "bytes \<Rightarrow> error + pyval" where
  "spec_parseSnapshotInfo bs = (case Decode bs of Inl e \<Rightarrow> Inl e | Inr m \<Rightarrow> Inr (metadata_info m))"

text \<open>The download endpoint gives the raw bytes of the archive.\<close>

definition spec_serve_bytes :: "request \<Rightarrow> bytes \<Rightarrow> error + response" where
  "spec_serve_bytes r data = Inr (BytesResponse data)"

definition spec_helpers :: helpers where
  "spec_helpers =
     \<lparr>createSnapshotTar = spec_createSnapshotTar,
      parseSnapshotInfo = spec_parseSnapshotInfo,
      serve_bytes = spec_serve_bytes\<rparr>"

text \<open>
  The identifier is a random alphanumeric string of the length asked for: one
  character for each of the first \<open>n\<close> draws.
\<close>

definition alphanumeric :: string where
  "alphanumeric = ''abcdefghijklmnopqrstuvwxyz0123456789''"

definition spec_generateId :: "(nat \<Rightarrow> nat) \<Rightarrow> nat \<Rightarrow> string" where
  "spec_generateId draw n = map (\<lambda>i. alphanumeric ! (draw i mod length alphanumeric)) [0..<n]"

subsection \<open>The store and its observers\<close>

text \<open>
  The two dictionaries of the store go together when they have the same keys in the
  same order, every key can be hashed, and no two keys are equal for Python.
\<close>

definition keys_ok :: "pyval list \<Rightarrow> bool" where
  "keys_ok ks = (list_all hashable ks \<and> distinct (map norm_key ks))"

definition store_ok :: "state \<Rightarrow> bool" where
  "store_ok s =
     (map fst (snapshots s) = map fst (snapshot_data s) \<and> keys_ok (map fst (snapshots s)))"

text \<open>The two locks of the gate: the outer one and the inner one.\<close>

definition gate :: "state \<Rightarrow> bool \<times> bool" where
  "gate s = (snapshot_lock s, snapshot_inner_lock s)"

text \<open>The places of a creation that come after the check of the header.\<close>

fun after_check :: "pc \<Rightarrow> bool" where
  "after_check (Body j) = True"
| "after_check (ReleaseInner res) = True"
| "after_check (ReleaseOuter res) = True"
| "after_check (Finished res) = True"
| "after_check p = False"

text \<open>The pad size a creation draws: the \<open>padSize\<close> argument of line 216.\<close>

definition drawn_pad_size :: "ambient \<Rightarrow> state \<Rightarrow> int" where
  "drawn_pad_size a s =
     py_int (random_uniform (random_random a) (min_snapshot_size s) (max_snapshot_size s))"

text \<open>The number of bytes the download endpoint gives, None when it gives no bytes.\<close>

definition download_size :: "helpers \<Rightarrow> request \<Rightarrow> state \<Rightarrow> nat option" where
  "download_size h r s =
     (case fst (snapshotDownload h r s) of
        Inr (BytesResponse data) \<Rightarrow> Some (length data)
      | _ \<Rightarrow> None)"

subsection \<open>Example servers and requests\<close>

definition token_headers :: "(string \<times> string) list" where
  "token_headers = [(''X-Supervisor-Token'', ''test_header'')]"

definition example_ambient :: ambient where
  "example_ambient =
     \<lparr>generateId = spec_generateId (\<lambda>i. 0), time_now = 0, random_random = 1 / 2\<rparr>"

definition large_ambient :: ambient where
  "large_ambient =
     \<lparr>generateId = spec_generateId (\<lambda>i. 0), time_now = 0, random_random = 2097151 / 2097152\<rparr>"

definition create_request :: request where
  "create_request =
     \<lparr>headers = token_headers,
      match_info = [],
      json = Inr (PDict [(PStr ''name'', PStr ''nightly''), (PStr ''folders'', PList [PStr ''share''])]),
      multipart = Inl ValueError\<rparr>"

definition anonymous_create_request :: request where
  "anonymous_create_request = create_request\<lparr>headers := []\<rparr>"

definition snapshot_request :: "string \<Rightarrow> request" where
  "snapshot_request slug =
     \<lparr>headers = token_headers,
      match_info = [(''slug'', slug)],
      json = Inl JSONDecodeError,
      multipart = Inl ValueError\<rparr>"

definition upload_request :: "(error + bytes) list \<Rightarrow> request" where
  "upload_request chunks =
     \<lparr>headers = token_headers,
      match_info = [],
      json = Inl JSONDecodeError,
      multipart = Inr (Some chunks)\<rparr>"

definition server0 :: state where
  "server0 = init [] 1234"

definition blocked0 :: state where
  "blocked0 = snd (toggleBlockSnapshot server0)"

definition three_toggles :: "op list" where
  "three_toggles = [Toggle, Request NewSnapshot example_ambient create_request, Toggle, Toggle]"

definition two_toggles :: "op list" where
  "two_toggles = [Toggle, Request GetSnapshots example_ambient create_request, Toggle]"

definition created0 :: state where
  "created0 = snd (handle spec_helpers example_ambient NewSnapshot create_request server0)"

definition uploaded_blob :: bytes where
  "uploaded_blob = Encode ''abcd1234'' ''uploaded'' 7 3 [] [] ''secret''"

definition valid_upload :: request where
  "valid_upload = upload_request [Inr uploaded_blob]"

definition garbage_upload :: request where
  "garbage_upload = upload_request [Inr ''garbage'']"

definition replacing_blob :: bytes where
  "replacing_blob = Encode ''aaaaaaaa'' ''replacement'' 9 2 [] [] []"

definition replacing_upload :: request where
  "replacing_upload = upload_request [Inr replacing_blob]"

definition anonymous_options_request :: request where
  "anonymous_options_request =
     \<lparr>headers = [],
      match_info = [(''slug'', ''42'')],
      json = Inr (PDict [(PStr ''state'', PStr ''stopped'')]),
      multipart = Inl ValueError\<rparr>"

section \<open>Properties\<close>

subsection \<open>Dictionaries\<close>

lemma key_eq_refl [simp]: "key_eq k k"
  by (simp add: key_eq_def)

lemma dict_get_set_same [simp]: "dict_get (dict_set d k v) k = Some v"
  by (induction d) auto

lemma dict_get_set_other:
  "\<not> key_eq k k' \<Longrightarrow> dict_get (dict_set d k v) k' = dict_get d k'"
  by (induction d) (auto simp: key_eq_def)

lemma dict_get_del_same [simp]: "dict_get (dict_del d k) k = None"
  by (induction d) (auto simp: dict_del_def)

lemma dict_get_del_other:
  "\<not> key_eq k k' \<Longrightarrow> dict_get (dict_del d k) k' = dict_get d k'"
  by (induction d) (auto simp: dict_del_def key_eq_def)

lemma dict_contains_keys:
  "dict_contains d k = (\<exists>k' \<in> set (map fst d). key_eq k' k)"
  by (induction d) (auto simp: dict_contains_def)

lemma keys_dict_set:
  "map fst (dict_set d k v) = (if dict_contains d k then map fst d else map fst d @ [k])"
  by (induction d) (auto simp: dict_contains_def split: if_splits)

lemma keys_dict_del:
  "map fst (dict_del d k) = filter (\<lambda>k'. \<not> key_eq k' k) (map fst d)"
  by (induction d) (auto simp: dict_del_def)

lemma dict_contains_cong:
  "map fst d = map fst d' \<Longrightarrow> dict_contains d k = dict_contains d' k"
  by (simp add: dict_contains_keys)

subsection \<open>The run of a creation\<close>

lemma verifyHeader_locks [simp]:
  "verifyHeader (s\<lparr>snapshot_lock := x\<rparr>) r = verifyHeader s r"
  "verifyHeader (s\<lparr>snapshot_inner_lock := y\<rparr>) r = verifyHeader s r"
  by (simp_all add: verifyHeader_def)

lemma newSnapshot_at_held:
  "snapshot_lock s \<Longrightarrow> newSnapshot_at h a r s (Suc n) = (Finished (Inl HTTPBadRequest), s)"
  by (induction n) (simp_all add: newSnapshot_at_def)

lemma body_state:
  "newSnapshot_body h a j s = (res, s') \<Longrightarrow>
     snapshot_lock s' = snapshot_lock s \<and> snapshot_inner_lock s' = snapshot_inner_lock s"
  by (auto simp: newSnapshot_body_def Let_def dict_setitem_def split: sum.splits if_splits)

lemma body_locks:
  "newSnapshot_body h a j (s\<lparr>snapshot_lock := x, snapshot_inner_lock := y\<rparr>) =
     (case newSnapshot_body h a j s of
        (res, s') \<Rightarrow> (res, s'\<lparr>snapshot_lock := x, snapshot_inner_lock := y\<rparr>))"
  by (simp add: newSnapshot_body_def Let_def dict_setitem_def split: sum.splits)

text \<open>The handler run alone, as one function of the request and the state.\<close>

lemma newSnapshot_run:
  "newSnapshot h a r s =
     (if snapshot_lock s then (Some (Inl HTTPBadRequest), s)
      else case json r of
        Inl e \<Rightarrow> (Some (Inl e), s)
      | Inr j \<Rightarrow>
          if snapshot_inner_lock s then (None, s\<lparr>snapshot_lock := True\<rparr>)
          else (case verifyHeader s r of
                  Inl e \<Rightarrow> (Some (Inl e), s)
                | Inr u \<Rightarrow> (case newSnapshot_body h a j s of (res, s') \<Rightarrow> (Some res, s'))))"
proof (cases "snapshot_lock s")
  case True
  then show ?thesis
    by (simp add: newSnapshot_def newSnapshot_at_held eval_nat_numeral)
next
  case False
  show ?thesis
  proof (cases "json r")
    case (Inl e)
    with False show ?thesis
      by (simp add: newSnapshot_def newSnapshot_at_def eval_nat_numeral)
  next
    case (Inr j)
    show ?thesis
    proof (cases "snapshot_inner_lock s")
      case True
      with False Inr show ?thesis
        by (simp add: newSnapshot_def newSnapshot_at_def eval_nat_numeral lock_acquire_def)
    next
      case inner: False
      show ?thesis
      proof (cases "verifyHeader s r")
        case (Inl e)
        with False Inr inner show ?thesis
          by (simp add: newSnapshot_def newSnapshot_at_def eval_nat_numeral lock_acquire_def
              lock_release_def)
      next
        case ok: (Inr u)
        obtain res s' where b: "newSnapshot_body h a j s = (res, s')"
          by (cases "newSnapshot_body h a j s")
        from body_state [OF b] False inner
        have "\<not> snapshot_lock s'" "\<not> snapshot_inner_lock s'" by simp_all
        with False Inr inner ok b show ?thesis
          by (simp add: newSnapshot_def newSnapshot_at_def eval_nat_numeral lock_acquire_def
              lock_release_def body_locks)
      qed
    qed
  qed
qed

subsection \<open>The gate under the handlers\<close>

lemma gate_simple:
  "hdl \<noteq> NewSnapshot \<Longrightarrow> gate (snd (handle h a hdl r s)) = gate s"
  apply (cases hdl)
  apply (simp_all add: returns_def gate_def)
  apply (simp_all add: updateOptions_def dismissNotification_def createNotification_def
      haEventUpdate_def haStateUpdate_def authenticate_def miscInfo_def selfInfo_def addonInfo_def
      snapshotDownload_def snapshotDetail_def startAddon_def stopAddon_def deleteSnapshot_def
      uploadSnapshot_def uploadSnapshot_try_def coreInfo_def supervisorInfo_def supervisorLogs_def
      coreLogs_def getSnapshots_def Let_def dict_setitem_def dict_delitem_def
      split: sum.splits option.splits prod.splits if_splits)
  done

lemma gate_newSnapshot:
  assumes "\<not> snapshot_inner_lock s"
  shows "gate (snd (newSnapshot h a r s)) = gate s"
  using assms body_state
  by (auto simp: newSnapshot_run gate_def split: sum.splits prod.splits)

lemma gate_handle:
  "\<not> snapshot_inner_lock s \<Longrightarrow> gate (snd (handle h a hdl r s)) = gate s"
  by (cases "hdl = NewSnapshot") (simp_all add: gate_newSnapshot gate_simple)

lemma gate_toggle:
  "gate (snd (toggleBlockSnapshot s)) = (\<not> snapshot_lock s, snapshot_inner_lock s)"
  by (simp add: toggleBlockSnapshot_def lock_acquire_def lock_release_def gate_def)

lemma toggle_returns: "fst (toggleBlockSnapshot s) = Some (Inr ())"
  by (simp add: toggleBlockSnapshot_def lock_acquire_def lock_release_def)

lemma toggles_Cons:
  "toggles (x # xs) = (if x = Toggle then Suc (toggles xs) else toggles xs)"
  by (simp add: toggles_def)

lemma run_gate:
  "\<not> snapshot_inner_lock s \<Longrightarrow>
     gate (run h ops s) = (snapshot_lock s \<noteq> odd (toggles ops), False)"
proof (induction ops arbitrary: s)
  case Nil
  then show ?case by (simp add: gate_def toggles_def)
next
  case (Cons x xs)
  show ?case
  proof (cases x)
    case (Request hdl a r)
    from gate_handle [OF Cons.prems, of h a hdl r]
    have g: "snapshot_lock (snd (handle h a hdl r s)) = snapshot_lock s"
      "\<not> snapshot_inner_lock (snd (handle h a hdl r s))"
      using Cons.prems by (simp_all add: gate_def)
    from Cons.IH [OF g(2)] g(1) Request show ?thesis
      by (simp add: toggles_Cons)
  next
    case Toggle
    from gate_toggle [of s] Cons.prems
    have g: "snapshot_lock (snd (toggleBlockSnapshot s)) = (\<not> snapshot_lock s)"
      "\<not> snapshot_inner_lock (snd (toggleBlockSnapshot s))"
      by (simp_all add: gate_def)
    from Cons.IH [OF g(2)] g(1) Toggle show ?thesis
      by (auto simp: toggles_Cons)
  qed
qed

lemma init_gate: "gate (init aa p) = (False, False)"
  by (simp add: init_def installAddon_def gate_def)


subsection \<open>The steps of a creation\<close>

lemma at_Suc:
  "newSnapshot_at h a r s (Suc n) = newSnapshot_step h a r (newSnapshot_at h a r s n)"
  by (simp add: newSnapshot_at_def)

lemma at_0 [simp]: "newSnapshot_at h a r s 0 = (Entry, s)"
  by (simp add: newSnapshot_at_def)

lemma step_after_check:
  "after_check (fst c) \<Longrightarrow> after_check (fst (newSnapshot_step h a r c))"
  by (cases c, cases "fst c")
    (auto simp: lock_release_def split: prod.splits sum.splits)

lemma at_after_check:
  "after_check (fst (newSnapshot_at h a r s m)) \<Longrightarrow>
     after_check (fst (newSnapshot_at h a r s (m + k)))"
  by (induction k) (simp_all add: at_Suc step_after_check)

lemma at_first_steps:
  assumes "\<not> snapshot_lock s" "\<not> snapshot_inner_lock s" "json r = Inr j"
  shows "newSnapshot_at h a r s 1 = (ReadJson, s)"
    and "newSnapshot_at h a r s 2 = (AcquireOuter j, s)"
    and "newSnapshot_at h a r s 3 = (AcquireInner j, s\<lparr>snapshot_lock := True\<rparr>)"
    and "newSnapshot_at h a r s 4
           = (VerifyHeader j, s\<lparr>snapshot_lock := True, snapshot_inner_lock := True\<rparr>)"
    and "after_check (fst (newSnapshot_at h a r s 5))"
  using assms
  by (simp_all add: newSnapshot_at_def eval_nat_numeral lock_acquire_def split: sum.splits)

lemma at_no_json:
  assumes "\<not> snapshot_lock s" "json r = Inl e"
  shows "newSnapshot_at h a r s 1 = (ReadJson, s)"
    and "after_check (fst (newSnapshot_at h a r s 2))"
  using assms by (simp_all add: newSnapshot_at_def eval_nat_numeral)

lemma check_only_at_4:
  assumes "\<not> snapshot_lock s" "\<not> snapshot_inner_lock s"
    and v: "fst (newSnapshot_at h a r s n) = VerifyHeader j"
  shows "n = 4 \<and> json r = Inr j"
proof (cases "json r")
  case (Inl e)
  have "n < 2 \<or> 2 \<le> n" by arith
  then show ?thesis
  proof
    assume "n < 2"
    then have "n = 0 \<or> n = 1" by arith
    with v at_no_json(1) [OF assms(1) Inl, of h a] show ?thesis by auto
  next
    assume "2 \<le> n"
    then obtain k where "n = 2 + k" using le_Suc_ex by blast
    with at_after_check [OF at_no_json(2) [OF assms(1) Inl, of h a], of k] v
    show ?thesis by simp
  qed
next
  case (Inr j')
  note fs = at_first_steps [OF assms(1,2) Inr, of h a]
  have "n < 5 \<or> 5 \<le> n" by arith
  then show ?thesis
  proof
    assume "n < 5"
    then have "n = 0 \<or> n = 1 \<or> n = 2 \<or> n = 3 \<or> n = 4" by arith
    with v fs Inr show ?thesis by auto
  next
    assume "5 \<le> n"
    then obtain k where "n = 5 + k" using le_Suc_ex by blast
    with at_after_check [OF fs(5), of k] v show ?thesis by simp
  qed
qed

lemma at_first_steps_inner_held:
  assumes "\<not> snapshot_lock s" "snapshot_inner_lock s" "json r = Inr j"
  shows "newSnapshot_at h a r s 1 = (ReadJson, s)"
    and "newSnapshot_at h a r s 2 = (AcquireOuter j, s)"
    and "newSnapshot_at h a r s (3 + k) = (AcquireInner j, s\<lparr>snapshot_lock := True\<rparr>)"
proof -
  show "newSnapshot_at h a r s 1 = (ReadJson, s)"
    using assms by (simp add: newSnapshot_at_def)
  show "newSnapshot_at h a r s 2 = (AcquireOuter j, s)"
    using assms by (simp add: newSnapshot_at_def eval_nat_numeral)
  have three: "newSnapshot_at h a r s 3 = (AcquireInner j, s\<lparr>snapshot_lock := True\<rparr>)"
    using assms by (simp add: newSnapshot_at_def eval_nat_numeral lock_acquire_def)
  show "newSnapshot_at h a r s (3 + k) = (AcquireInner j, s\<lparr>snapshot_lock := True\<rparr>)"
  proof (induction k)
    case 0
    then show ?case by (simp add: three)
  next
    case (Suc k)
    have "newSnapshot_at h a r s (Suc (3 + k)) = newSnapshot_step h a r (newSnapshot_at h a r s (3 + k))"
      by (rule at_Suc)
    with Suc assms(2)
    have "newSnapshot_at h a r s (Suc (3 + k)) = (AcquireInner j, s\<lparr>snapshot_lock := True\<rparr>)"
      by (simp add: lock_acquire_def)
    then show ?case by (simp only: add_Suc_right)
  qed
qed

lemma check_needs_free_gate:
  assumes v: "fst (newSnapshot_at h a r s n) = VerifyHeader j"
  shows "\<not> snapshot_lock s \<and> \<not> snapshot_inner_lock s"
proof (rule ccontr)
  assume "\<not> (\<not> snapshot_lock s \<and> \<not> snapshot_inner_lock s)"
  then consider "snapshot_lock s" | "\<not> snapshot_lock s" "snapshot_inner_lock s" by blast
  then show False
  proof cases
    case 1
    show False
    proof (cases n)
      case 0
      with v show False by simp
    next
      case (Suc m)
      with v newSnapshot_at_held [OF 1, of h a r m] show False by simp
    qed
  next
    case 2
    show False
    proof (cases "json r")
      case (Inl e)
      have "n < 2 \<or> 2 \<le> n" by arith
      then show False
      proof
        assume "n < 2"
        then have "n = 0 \<or> n = 1" by arith
        with v at_no_json(1) [OF 2(1) Inl, of h a] show False by auto
      next
        assume "2 \<le> n"
        then obtain k where "n = 2 + k" using le_Suc_ex by blast
        with at_after_check [OF at_no_json(2) [OF 2(1) Inl, of h a], of k] v
        show False by simp
      qed
    next
      case (Inr j')
      note fs = at_first_steps_inner_held [OF 2 Inr, of h a]
      have "n < 3 \<or> 3 \<le> n" by arith
      then show False
      proof
        assume "n < 3"
        then have "n = 0 \<or> n = 1 \<or> n = 2" by arith
        with v fs(1,2) show False by auto
      next
        assume "3 \<le> n"
        then obtain k where "n = 3 + k" using le_Suc_ex by blast
        with fs(3) [of k] v show False by simp
      qed
    qed
  qed
qed

lemma finished_restores_gate:
  assumes "newSnapshot h a r s = (Some res, s')"
  shows "gate s' = gate s"
proof (cases "snapshot_inner_lock s")
  case False
  from gate_newSnapshot [OF False, of h a r] assms show ?thesis by simp
next
  case True
  with assms show ?thesis
    by (auto simp: newSnapshot_run split: if_splits sum.splits)
qed

subsection \<open>The store under the handlers\<close>

lemma store_ok_locks [simp]:
  "store_ok (s\<lparr>snapshot_lock := x\<rparr>) = store_ok s"
  "store_ok (s\<lparr>snapshot_inner_lock := y\<rparr>) = store_ok s"
  by (simp_all add: store_ok_def)

lemma keys_eq_set:
  "map fst d1 = map fst d2 \<Longrightarrow> map fst (dict_set d1 k v) = map fst (dict_set d2 k b)"
  by (simp add: keys_dict_set dict_contains_keys)

lemma keys_eq_del:
  "map fst d1 = map fst d2 \<Longrightarrow> map fst (dict_del d1 k) = map fst (dict_del d2 k)"
  by (simp add: keys_dict_del)

lemma keys_ok_set:
  assumes "keys_ok (map fst d)" "hashable k"
  shows "keys_ok (map fst (dict_set d k v))"
proof (cases "dict_contains d k")
  case True
  with assms show ?thesis by (simp add: keys_dict_set)
next
  case False
  then have "norm_key k \<notin> norm_key ` fst ` set d"
    by (auto simp: dict_contains_keys key_eq_def)
  with assms False show ?thesis
    by (simp add: keys_dict_set keys_ok_def image_image)
qed

lemma keys_ok_filter: "keys_ok ks \<Longrightarrow> keys_ok (filter P ks)"
  by (auto simp: keys_ok_def list_all_iff distinct_map_filter)

lemma keys_ok_del:
  "keys_ok (map fst d) \<Longrightarrow> keys_ok (map fst (dict_del d k))"
  unfolding keys_dict_del by (rule keys_ok_filter)

lemma store_ok_set:
  assumes "store_ok s" "hashable k"
  shows "store_ok (s\<lparr>snapshots := dict_set (snapshots s) k v,
                    snapshot_data := dict_set (snapshot_data s) k b\<rparr>)"
proof -
  from assms(1) have eq: "map fst (snapshots s) = map fst (snapshot_data s)"
    and ok: "keys_ok (map fst (snapshots s))"
    unfolding store_ok_def by blast+
  have "map fst (dict_set (snapshots s) k v) = map fst (dict_set (snapshot_data s) k b)"
    by (rule keys_eq_set [OF eq])
  moreover have "keys_ok (map fst (dict_set (snapshots s) k v))"
    by (rule keys_ok_set [OF ok assms(2)])
  ultimately show ?thesis by (simp add: store_ok_def)
qed

lemma store_ok_del:
  assumes "store_ok s"
  shows "store_ok (s\<lparr>snapshots := dict_del (snapshots s) k,
                    snapshot_data := dict_del (snapshot_data s) k\<rparr>)"
proof -
  from assms(1) have eq: "map fst (snapshots s) = map fst (snapshot_data s)"
    and ok: "keys_ok (map fst (snapshots s))"
    unfolding store_ok_def by blast+
  have "map fst (dict_del (snapshots s) k) = map fst (dict_del (snapshot_data s) k)"
    by (rule keys_eq_del [OF eq])
  moreover have "keys_ok (map fst (dict_del (snapshots s) k))"
    by (rule keys_ok_del [OF ok])
  ultimately show ?thesis by (simp add: store_ok_def)
qed

lemma store_ok_body:
  "store_ok s \<Longrightarrow> store_ok (snd (newSnapshot_body h a j s))"
  using store_ok_set [of s "PStr (generateId a 8)"]
  by (auto simp: newSnapshot_body_def Let_def dict_setitem_def split: sum.splits)

lemma store_ok_step:
  assumes "store_ok (snd c)"
  shows "store_ok (snd (newSnapshot_step h a r c))"
proof (cases c)
  case (Pair p s)
  with assms have ok: "store_ok s" by simp
  show ?thesis
  proof (cases p)
    case (Body j)
    obtain res s' where b: "newSnapshot_body h a j s = (res, s')"
      by (cases "newSnapshot_body h a j s")
    with store_ok_body [OF ok, of h a j] have "store_ok s'" by simp
    with Pair Body b show ?thesis by simp
  qed (use Pair ok in \<open>auto simp: lock_acquire_def lock_release_def split: sum.splits\<close>)
qed

lemma store_ok_at:
  "store_ok s \<Longrightarrow> store_ok (snd (newSnapshot_at h a r s n))"
  by (induction n) (simp_all add: newSnapshot_at_def store_ok_step)

lemma store_ok_newSnapshot:
  "store_ok s \<Longrightarrow> store_ok (snd (newSnapshot h a r s))"
  using store_ok_at [of s h a r 8]
  by (auto simp: newSnapshot_def split: prod.splits pc.splits)

lemma store_ok_upload:
  "store_ok s \<Longrightarrow> store_ok (snd (uploadSnapshot h r s))"
  using store_ok_set [of s]
  by (auto simp: uploadSnapshot_def uploadSnapshot_try_def Let_def dict_setitem_def
      split: sum.splits option.splits prod.splits if_splits)

lemma store_ok_contains:
  "store_ok s \<Longrightarrow> dict_contains (snapshot_data s) k = dict_contains (snapshots s) k"
  by (simp add: store_ok_def dict_contains_keys)

lemma deleteSnapshot_ok:
  assumes "store_ok s"
  shows "deleteSnapshot r s =
     (case verifyHeader s r of
        Inl e \<Rightarrow> (Inl e, s)
      | Inr u \<Rightarrow>
          if dict_contains (snapshots s) (match_get r ''slug'')
          then (Inr (formatDataResponse (PStr ''deleted'')),
                s\<lparr>snapshots := dict_del (snapshots s) (match_get r ''slug''),
                  snapshot_data := dict_del (snapshot_data s) (match_get r ''slug'')\<rparr>)
          else (Inl HTTPNotFound, s))"
  using store_ok_contains [OF assms, of "match_get r ''slug''"]
  by (simp add: deleteSnapshot_def Let_def dict_delitem_def split: sum.splits)

lemma store_ok_delete:
  assumes "store_ok s"
  shows "store_ok (snd (deleteSnapshot r s))"
  using assms store_ok_del [OF assms, of "match_get r ''slug''"]
  by (simp add: deleteSnapshot_ok split: sum.splits)

lemma store_simple:
  assumes "hdl \<noteq> NewSnapshot" "hdl \<noteq> UploadSnapshot" "hdl \<noteq> DeleteSnapshot"
  shows "snapshots (snd (handle h a hdl r s)) = snapshots s
         \<and> snapshot_data (snd (handle h a hdl r s)) = snapshot_data s"
  using assms
  apply (cases hdl)
  apply (simp_all add: returns_def)
  apply (simp_all add: updateOptions_def dismissNotification_def createNotification_def
      haEventUpdate_def haStateUpdate_def authenticate_def miscInfo_def selfInfo_def addonInfo_def
      snapshotDownload_def snapshotDetail_def startAddon_def stopAddon_def
      coreInfo_def supervisorInfo_def supervisorLogs_def
      coreLogs_def getSnapshots_def Let_def
      split: sum.splits option.splits prod.splits if_splits)
  done

lemma store_ok_handle:
  assumes "store_ok s"
  shows "store_ok (snd (handle h a hdl r s))"
proof -
  consider "hdl = NewSnapshot" | "hdl = UploadSnapshot" | "hdl = DeleteSnapshot"
    | "hdl \<noteq> NewSnapshot" "hdl \<noteq> UploadSnapshot" "hdl \<noteq> DeleteSnapshot"
    by blast
  then show ?thesis
  proof cases
    case 1
    with assms show ?thesis by (simp add: store_ok_newSnapshot)
  next
    case 2
    with assms show ?thesis by (simp add: returns_def store_ok_upload)
  next
    case 3
    with assms show ?thesis by (simp add: returns_def store_ok_delete)
  next
    case 4
    from store_simple [OF 4, of h a r s] assms show ?thesis
      by (auto simp: store_ok_def)
  qed
qed

lemma store_ok_toggle: "store_ok s \<Longrightarrow> store_ok (snd (toggleBlockSnapshot s))"
  by (simp add: toggleBlockSnapshot_def lock_acquire_def lock_release_def)

lemma store_ok_run: "store_ok s \<Longrightarrow> store_ok (run h ops s)"
proof (induction ops arbitrary: s)
  case Nil
  then show ?case by simp
next
  case (Cons x xs)
  then show ?case
    by (cases x) (simp_all add: store_ok_handle store_ok_toggle)
qed

lemma store_ok_init: "store_ok (init aa p)"
  by (simp add: init_def installAddon_def store_ok_def keys_ok_def)

subsection \<open>The codec\<close>

lemma dec_enc_nat: "dec_nat (enc_nat n @ rest) = Some (n, rest)"
proof (induction n rule: enc_nat.induct)
  case (1 n)
  show ?case
  proof (cases "n < 128")
    case True
    then show ?thesis by (simp add: enc_nat.simps [of n])
  next
    case False
    have "(128 + n mod 128) mod 256 = 128 + n mod 128"
      by (simp add: mod_less) 
    with False "1.IH" show ?thesis
      by (simp add: enc_nat.simps [of n])
  qed
qed

lemma dec_enc_str: "dec_str (enc_str x @ rest) = Some (x, rest)"
  by (simp add: dec_str_def enc_str_def dec_enc_nat)

lemma dec_n_enc_strs:
  "dec_n_strs (length xs) (concat (map enc_str xs) @ rest) = Some (xs, rest)"
  by (induction xs) (simp_all add: dec_enc_str)

lemma dec_enc_strs: "dec_strs (enc_strs xs @ rest) = Some (xs, rest)"
  by (simp add: dec_strs_def enc_strs_def dec_enc_nat dec_n_enc_strs)

lemma dec_enc_flag: "dec_flag (enc_flag b @ rest) = Some (b, rest)"
  by (simp add: enc_flag_def)

lemma Decode_Encode:
  "Decode (Encode ident name ts padSize folders addns passwd) =
     Inr \<lparr>md_id = ident, md_name = name, md_created_at = ts,
          md_size = length (Encode ident name ts padSize folders addns passwd),
          md_included_folders = folders, md_included_addons = addns,
          md_protected = (passwd \<noteq> []),
          md_partial = (folders \<noteq> [] \<or> addns \<noteq> [])\<rparr>"
  by (simp add: Decode_def Encode_def container_def dec_enc_str dec_enc_nat dec_enc_strs
      dec_enc_flag del: replicate.simps)

lemma length_Encode:
  "length (Encode ident name ts padSize folders addns passwd)
     = length (container ident name ts folders addns passwd) + padSize"
  by (simp add: Encode_def)

lemma length_spec_generateId: "length (spec_generateId draw n) = n"
  by (simp add: spec_generateId_def)

lemma container_example:
  "length (container ''aaaaaaaa'' ''nightly'' 0 [''share''] [] []) = 27"
  by (simp add: container_def enc_str_def enc_strs_def enc_flag_def enc_nat.simps)

subsection \<open>Creation with the codec of the spec\<close>

lemma opt_str_cases:
  "opt_str v = Some p \<Longrightarrow> (v = PNone \<and> p = []) \<or> v = PStr p"
  by (cases v) auto

lemma the_str_Some: "the_str v = Some x \<Longrightarrow> v = PStr x"
  by (cases v) auto

lemma spec_body_success:
  assumes "newSnapshot_body spec_helpers a j s = (Inr resp, s')"
  shows "\<exists>n passwd p folders fs addns as.
      py_get j ''name'' (PStr ''Default name'') = Inr (PStr n)
    \<and> py_get j ''password'' PNone = Inr passwd \<and> opt_str passwd = Some p
    \<and> py_get j ''folders'' PNone = Inr folders \<and> opt_strs folders = Some fs
    \<and> py_get j ''addons'' PNone = Inr addns \<and> opt_strs addns = Some as
    \<and> resp = formatDataResponse (PDict [(PStr ''slug'', PStr (generateId a 8))])
    \<and> s' = s\<lparr>snapshots := dict_set (snapshots s) (PStr (generateId a 8))
                  (metadata_info
                    \<lparr>md_id = generateId a 8, md_name = n, md_created_at = time_now a,
                     md_size = length (Encode (generateId a 8) n (time_now a)
                                 (nat (drawn_pad_size a s)) fs as p),
                     md_included_folders = fs, md_included_addons = as,
                     md_protected = (p \<noteq> []),
                     md_partial = (fs \<noteq> [] \<or> as \<noteq> [])\<rparr>),
             snapshot_data := dict_set (snapshot_data s) (PStr (generateId a 8))
                  (Encode (generateId a 8) n (time_now a) (nat (drawn_pad_size a s)) fs as p)\<rparr>"
  using assms
  by (auto simp: newSnapshot_body_def Let_def spec_helpers_def spec_createSnapshotTar_def
      spec_parseSnapshotInfo_def Decode_Encode dict_setitem_def drawn_pad_size_def
      split: sum.splits option.splits dest!: the_str_Some)

lemma example_id: "generateId example_ambient 8 = ''aaaaaaaa''"
  by (simp add: example_ambient_def spec_generateId_def alphanumeric_def upt_rec)

lemma large_id: "generateId large_ambient 8 = ''aaaaaaaa''"
  by (simp add: large_ambient_def spec_generateId_def alphanumeric_def upt_rec)

lemma example_time: "time_now example_ambient = 0" "time_now large_ambient = 0"
  by (simp_all add: example_ambient_def large_ambient_def)

lemma example_pad: "drawn_pad_size example_ambient server0 = 4194304"
  by (simp add: drawn_pad_size_def example_ambient_def server0_def init_def installAddon_def
      random_uniform_def py_int_def)

lemma large_pad: "drawn_pad_size large_ambient server0 = 5242879"
  by (simp add: drawn_pad_size_def large_ambient_def server0_def init_def installAddon_def
      random_uniform_def py_int_def)

lemma server0_free: "\<not> snapshot_lock server0" "\<not> snapshot_inner_lock server0"
  by (simp_all add: server0_def init_def installAddon_def)

lemma server0_store: "snapshots server0 = []" "snapshot_data server0 = []"
  by (simp_all add: server0_def init_def installAddon_def)

lemma server0_token: "auth_token server0 = ''test_header''"
  by (simp add: server0_def init_def installAddon_def)

lemma token_verifies:
  "auth_token s = ''test_header'' \<Longrightarrow> headers r = token_headers \<Longrightarrow> verifyHeader s r = Inr ()"
  by (simp add: verifyHeader_def header_get_def token_headers_def)

lemma example_body:
  "newSnapshot_body spec_helpers a
      (PDict [(PStr ''name'', PStr ''nightly''), (PStr ''folders'', PList [PStr ''share''])]) s =
     (Inr (formatDataResponse (PDict [(PStr ''slug'', PStr (generateId a 8))])),
      s\<lparr>snapshots := dict_set (snapshots s) (PStr (generateId a 8))
           (metadata_info
              \<lparr>md_id = generateId a 8, md_name = ''nightly'', md_created_at = time_now a,
               md_size = length (Encode (generateId a 8) ''nightly'' (time_now a)
                           (nat (drawn_pad_size a s)) [''share''] [] []),
               md_included_folders = [''share''], md_included_addons = [],
               md_protected = False, md_partial = True\<rparr>),
        snapshot_data := dict_set (snapshot_data s) (PStr (generateId a 8))
           (Encode (generateId a 8) ''nightly'' (time_now a)
              (nat (drawn_pad_size a s)) [''share''] [] [])\<rparr>)"
  by (simp add: newSnapshot_body_def Let_def spec_helpers_def spec_createSnapshotTar_def
      spec_parseSnapshotInfo_def Decode_Encode dict_setitem_def drawn_pad_size_def py_get_def
      key_eq_def)

lemma example_creation:
  "handle spec_helpers example_ambient NewSnapshot create_request server0 =
     (Some (Inr (formatDataResponse (PDict [(PStr ''slug'', PStr ''aaaaaaaa'')]))), created0)"
  "snapshot_data created0 =
     [(PStr ''aaaaaaaa'', Encode ''aaaaaaaa'' ''nightly'' 0 4194304 [''share''] [] [])]"
  "auth_token created0 = ''test_header''"
proof -
  have v: "verifyHeader server0 create_request = Inr ()"
    by (rule token_verifies [OF server0_token]) (simp add: create_request_def)
  have j: "json create_request
      = Inr (PDict [(PStr ''name'', PStr ''nightly''), (PStr ''folders'', PList [PStr ''share''])])"
    by (simp add: create_request_def)
  have run: "newSnapshot spec_helpers example_ambient create_request server0 =
     (case newSnapshot_body spec_helpers example_ambient
        (PDict [(PStr ''name'', PStr ''nightly''), (PStr ''folders'', PList [PStr ''share''])]) server0
      of (res, s') \<Rightarrow> (Some res, s'))"
    using server0_free v j by (simp add: newSnapshot_run)
  show "handle spec_helpers example_ambient NewSnapshot create_request server0 =
     (Some (Inr (formatDataResponse (PDict [(PStr ''slug'', PStr ''aaaaaaaa'')]))), created0)"
    by (simp add: created0_def run example_body example_id)
  show "snapshot_data created0 =
     [(PStr ''aaaaaaaa'', Encode ''aaaaaaaa'' ''nightly'' 0 4194304 [''share''] [] [])]"
    by (simp add: created0_def run example_body example_id example_pad server0_store
        example_time del: replicate.simps)
  show "auth_token created0 = ''test_header''"
    by (simp add: created0_def run example_body server0_token)
qed

lemma creation_on_server0:
  "newSnapshot spec_helpers a create_request server0 =
     (Some (Inr (formatDataResponse (PDict [(PStr ''slug'', PStr (generateId a 8))]))),
      server0\<lparr>snapshots := [(PStr (generateId a 8),
           metadata_info
              \<lparr>md_id = generateId a 8, md_name = ''nightly'', md_created_at = time_now a,
               md_size = length (Encode (generateId a 8) ''nightly'' (time_now a)
                           (nat (drawn_pad_size a server0)) [''share''] [] []),
               md_included_folders = [''share''], md_included_addons = [],
               md_protected = False, md_partial = True\<rparr>)],
        snapshot_data := [(PStr (generateId a 8),
           Encode (generateId a 8) ''nightly'' (time_now a)
              (nat (drawn_pad_size a server0)) [''share''] [] [])]\<rparr>)"
proof -
  have v: "verifyHeader server0 create_request = Inr ()"
    by (rule token_verifies [OF server0_token]) (simp add: create_request_def)
  have j: "json create_request
      = Inr (PDict [(PStr ''name'', PStr ''nightly''), (PStr ''folders'', PList [PStr ''share''])])"
    by (simp add: create_request_def)
  from server0_free v j show ?thesis
    by (simp add: newSnapshot_run example_body server0_store del: replicate.simps)
qed

lemma verifyHeader_store [simp]:
  "verifyHeader (s\<lparr>snapshots := d\<rparr>) r = verifyHeader s r"
  "verifyHeader (s\<lparr>snapshot_data := d'\<rparr>) r = verifyHeader s r"
  by (simp_all add: verifyHeader_def)

lemma download_size_of:
  assumes "verifyHeader s q = Inr ()"
    and "dict_get (snapshot_data s) (match_get q ''slug'') = Some data"
  shows "download_size spec_helpers q s = Some (length data)"
  using assms
  by (simp add: download_size_def snapshotDownload_def spec_helpers_def spec_serve_bytes_def)

lemma drawn_pad_size_range:
  assumes "0 \<le> min_snapshot_size s" "min_snapshot_size s \<le> max_snapshot_size s"
    and "0 \<le> random_random a" "random_random a < 1"
  shows "min_snapshot_size s \<le> drawn_pad_size a s \<and> drawn_pad_size a s \<le> max_snapshot_size s"
proof -
  let ?lo = "min_snapshot_size s" and ?hi = "max_snapshot_size s" and ?r = "random_random a"
  let ?x = "random_uniform ?r ?lo ?hi"
  have d: "0 \<le> real_of_int ?hi - real_of_int ?lo" using assms(2) by simp
  have lo: "real_of_int ?lo \<le> ?x"
    using d assms(3) by (simp add: random_uniform_def)
  have "(real_of_int ?hi - real_of_int ?lo) * ?r \<le> (real_of_int ?hi - real_of_int ?lo) * 1"
    using d assms(4) by (intro mult_left_mono) simp_all
  then have hi: "?x \<le> real_of_int ?hi"
    by (simp add: random_uniform_def)
  from lo assms(1) have "0 \<le> ?x" by linarith
  then have "drawn_pad_size a s = \<lfloor>?x\<rfloor>"
    by (simp add: drawn_pad_size_def py_int_def)
  moreover from lo have "?lo \<le> \<lfloor>?x\<rfloor>" by (simp add: le_floor_iff)
  moreover from hi have "\<lfloor>?x\<rfloor> \<le> ?hi" by (simp add: floor_le_iff)
  ultimately show ?thesis by simp
qed

lemma container_nonempty:
  "0 < length (container ident name ts folders addns passwd)"
  by (simp add: container_def enc_flag_def)

subsection \<open>Uploads and the example store\<close>

lemma Encode_nonempty: "Encode ident name ts padSize folders addns passwd \<noteq> []"
  using container_nonempty [of ident name ts folders addns passwd]
  by (simp add: Encode_def del: replicate.simps)

lemma read_one_chunk: "chunk \<noteq> [] \<Longrightarrow> read_chunks [Inr chunk] [] = Inr chunk"
  by simp

lemma spec_parse_Encode:
  "parseSnapshotInfo spec_helpers (Encode ident name ts padSize folders addns passwd) =
     Inr (metadata_info
       \<lparr>md_id = ident, md_name = name, md_created_at = ts,
        md_size = length (Encode ident name ts padSize folders addns passwd),
        md_included_folders = folders, md_included_addons = addns,
        md_protected = (passwd \<noteq> []),
        md_partial = (folders \<noteq> [] \<or> addns \<noteq> [])\<rparr>)"
  by (simp add: spec_helpers_def spec_parseSnapshotInfo_def Decode_Encode)

lemma slug_of_metadata_info: "py_getitem (metadata_info m) ''slug'' = Inr (PStr (md_id m))"
  by (simp add: metadata_info_def py_getitem_def)

lemma spec_parse_garbage: "parseSnapshotInfo spec_helpers ''garbage'' = Inl CorruptArchive"
  by (simp add: spec_helpers_def spec_parseSnapshotInfo_def Decode_def dec_str_def)

lemma key_eq_hashable: "key_eq a b \<Longrightarrow> hashable a = hashable b"
  by (cases a; cases b) (auto simp: key_eq_def split: if_splits)

lemma store_ok_hashable:
  assumes "store_ok s" "dict_contains (snapshots s) k"
  shows "hashable k"
proof -
  from assms(2) obtain k' where k': "k' \<in> set (map fst (snapshots s))" "key_eq k' k"
    by (auto simp: dict_contains_keys)
  from assms(1) have "list_all hashable (map fst (snapshots s))"
    unfolding store_ok_def keys_ok_def by blast
  with k'(1) have "hashable k'"
    unfolding list_all_iff by blast
  with key_eq_hashable [OF k'(2)] show ?thesis by simp
qed

lemma verifyHeader_same_token:
  "auth_token s' = auth_token s \<Longrightarrow> verifyHeader s' r = verifyHeader s r"
  by (simp add: verifyHeader_def)

lemma created0_keys: "map fst (snapshots created0) = [PStr ''aaaaaaaa'']"
  by (simp add: created0_def creation_on_server0 example_id)

lemma created0_ok: "store_ok created0"
  unfolding created0_def server0_def handle.simps
  by (rule store_ok_newSnapshot [OF store_ok_init])

lemma created0_verifies: "verifyHeader created0 (snapshot_request slug) = Inr ()"
  by (rule token_verifies [OF example_creation(3)]) (simp add: snapshot_request_def)

lemma snapshot_request_slug: "match_get (snapshot_request slug) ''slug'' = PStr slug"
  by (simp add: match_get_def snapshot_request_def)

subsection \<open>Requests without a credential\<close>

lemma no_credential:
  assumes "header_get r ''X-Supervisor-Token'' \<noteq> Some (auth_token s)"
    and "header_get r ''Authorization'' \<noteq> Some (''Bearer '' @ auth_token s)"
  shows "verifyHeader s r = Inl HTTPUnauthorized"
  using assms by (simp add: verifyHeader_def)

lemma unauthorized_simple:
  assumes "verifyHeader s r = Inl HTTPUnauthorized"
    and "hdl \<noteq> NewSnapshot"
    and "hdl = UpdateOptions \<longrightarrow> match_get r ''slug'' = PStr ''self''"
  shows "handle h a hdl r s = (Some (Inl HTTPUnauthorized), s)"
  using assms
  by (cases hdl)
    (simp_all add: returns_def updateOptions_def dismissNotification_def createNotification_def
      haEventUpdate_def haStateUpdate_def authenticate_def miscInfo_def selfInfo_def addonInfo_def
      snapshotDownload_def snapshotDetail_def startAddon_def stopAddon_def deleteSnapshot_def
      uploadSnapshot_def coreInfo_def supervisorInfo_def supervisorLogs_def
      coreLogs_def getSnapshots_def)

subsection \<open>Claims\<close>

text \<open>
  C1. A create-snapshot request that arrives while the snapshot lock is held is
  rejected at once with HTTPBadRequest, the response the spec calls Busy, which is not
  HTTPUnauthorized. The first step of the handler finishes it, so it never comes to an
  acquire and waits for nothing, and the state is what it was: no record and no bytes
  are added to the store.
\<close>

theorem create_while_locked_is_busy:
  assumes "snapshot_lock s"
  shows "handle h a NewSnapshot r s = (Some (Inl HTTPBadRequest), s)
         \<and> HTTPBadRequest \<noteq> HTTPUnauthorized
         \<and> (\<forall>n. 0 < n \<longrightarrow> newSnapshot_at h a r s n = (Finished (Inl HTTPBadRequest), s))
         \<and> snapshots (snd (handle h a NewSnapshot r s)) = snapshots s
         \<and> snapshot_data (snd (handle h a NewSnapshot r s)) = snapshot_data s"
proof -
  have run: "handle h a NewSnapshot r s = (Some (Inl HTTPBadRequest), s)"
    using assms by (simp add: newSnapshot_run)
  have steps: "\<forall>n. 0 < n \<longrightarrow> newSnapshot_at h a r s n = (Finished (Inl HTTPBadRequest), s)"
  proof (intro allI impI)
    fix n :: nat
    assume "0 < n"
    then obtain m where "n = Suc m" by (cases n) auto
    with assms show "newSnapshot_at h a r s n = (Finished (Inl HTTPBadRequest), s)"
      by (simp add: newSnapshot_at_held)
  qed
  from run steps show ?thesis by simp
qed

theorem create_while_locked_is_busy_witness:
  "snapshot_lock blocked0
   \<and> handle spec_helpers example_ambient NewSnapshot create_request blocked0
       = (Some (Inl HTTPBadRequest), blocked0)
   \<and> newSnapshot_at spec_helpers example_ambient create_request blocked0 1
       = (Finished (Inl HTTPBadRequest), blocked0)"
proof -
  have held: "snapshot_lock blocked0"
    by (simp add: blocked0_def toggleBlockSnapshot_def server0_def init_def installAddon_def
        lock_acquire_def)
  from create_while_locked_is_busy [OF held, of spec_helpers example_ambient create_request] held
  show ?thesis by simp
qed

text \<open>
  C2. \<open>toggleBlockSnapshot\<close> inverts the outer lock and returns. On a server that
  starts unlocked and on which requests and toggles follow one another, each request
  run to its end, the outer lock is held exactly when the number of toggles so far is
  odd: then every create-snapshot request is rejected with HTTPBadRequest and changes
  nothing, and when the number is even a create-snapshot request passes the test of
  the lock.
\<close>

theorem toggle_inverts_outer_lock:
  "snapshot_lock (snd (toggleBlockSnapshot s)) = (\<not> snapshot_lock s)
   \<and> fst (toggleBlockSnapshot s) = Some (Inr ())
   \<and> snapshot_lock (run h ops (init aa p)) = odd (toggles ops)
   \<and> (odd (toggles ops) \<longrightarrow>
        handle h a NewSnapshot r (run h ops (init aa p))
          = (Some (Inl HTTPBadRequest), run h ops (init aa p)))
   \<and> (even (toggles ops) \<longrightarrow>
        newSnapshot_step h a r (Entry, run h ops (init aa p))
          = (ReadJson, run h ops (init aa p)))"
proof -
  have free: "\<not> snapshot_inner_lock (init aa p)" "\<not> snapshot_lock (init aa p)"
    using init_gate [of aa p] by (simp_all add: gate_def)
  from run_gate [OF free(1), of h ops] free(2)
  have lock: "snapshot_lock (run h ops (init aa p)) = odd (toggles ops)"
    by (simp add: gate_def)
  have inv: "snapshot_lock (snd (toggleBlockSnapshot s)) = (\<not> snapshot_lock s)"
    using gate_toggle [of s] by (simp add: gate_def)
  from lock inv show ?thesis
    by (simp add: toggle_returns newSnapshot_run)
qed

theorem toggle_inverts_outer_lock_witness:
  "odd (toggles three_toggles)
   \<and> handle spec_helpers example_ambient NewSnapshot create_request (run spec_helpers three_toggles (init [] 1234))
       = (Some (Inl HTTPBadRequest), run spec_helpers three_toggles (init [] 1234))
   \<and> even (toggles two_toggles)
   \<and> newSnapshot_step spec_helpers example_ambient create_request
        (Entry, run spec_helpers two_toggles (init [] 1234))
       = (ReadJson, run spec_helpers two_toggles (init [] 1234))"
proof -
  have three: "odd (toggles three_toggles)"
    by (simp add: toggles_def three_toggles_def)
  have two: "even (toggles two_toggles)"
    by (simp add: toggles_def two_toggles_def)
  from three two
    toggle_inverts_outer_lock [of server0 spec_helpers three_toggles "[]" 1234 example_ambient create_request]
    toggle_inverts_outer_lock [of server0 spec_helpers two_toggles "[]" 1234 example_ambient create_request]
  show ?thesis by simp
qed

text \<open>
  C3, as amended. In every state, a create-snapshot request checks the header at its
  fifth statement only: after the acquire of the outer lock and then of the inner
  lock, with both held and the store untouched, which takes both locks free as it
  arrives. A request without credentials that passes the gate so holds it while it is
  checked, and is answered HTTPUnauthorized with the state as it was. A request that
  finishes, however it ends, leaves the two locks as it found them: one that found
  them free returns with both free; one that found the outer lock held is answered
  HTTPBadRequest at its first statement, acquires nothing, and the lock stays held.
\<close>

theorem check_under_both_locks:
  "(\<forall>n j. fst (newSnapshot_at h a r s n) = VerifyHeader j \<longrightarrow>
        n = 4
        \<and> \<not> snapshot_lock s \<and> \<not> snapshot_inner_lock s
        \<and> newSnapshot_at h a r s 2 = (AcquireOuter j, s)
        \<and> newSnapshot_at h a r s 3 = (AcquireInner j, s\<lparr>snapshot_lock := True\<rparr>)
        \<and> snd (newSnapshot_at h a r s n)
            = s\<lparr>snapshot_lock := True, snapshot_inner_lock := True\<rparr>)
   \<and> (\<forall>j. \<not> snapshot_lock s \<and> \<not> snapshot_inner_lock s \<and> json r = Inr j \<longrightarrow>
        fst (newSnapshot_at h a r s 4) = VerifyHeader j)
   \<and> (\<forall>j. \<not> snapshot_lock s \<and> \<not> snapshot_inner_lock s \<and> json r = Inr j
          \<and> verifyHeader s r = Inl HTTPUnauthorized \<longrightarrow>
        gate (snd (newSnapshot_at h a r s 4)) = (True, True)
        \<and> newSnapshot_at h a r s 5
            = (ReleaseInner (Inl HTTPUnauthorized),
               s\<lparr>snapshot_lock := True, snapshot_inner_lock := True\<rparr>)
        \<and> handle h a NewSnapshot r s = (Some (Inl HTTPUnauthorized), s))
   \<and> (\<forall>res s'. handle h a NewSnapshot r s = (Some res, s') \<longrightarrow> gate s' = gate s)
   \<and> (\<not> snapshot_lock s \<and> \<not> snapshot_inner_lock s \<longrightarrow>
        (\<exists>res s'. handle h a NewSnapshot r s = (Some res, s') \<and> gate s' = (False, False)))
   \<and> (snapshot_lock s \<longrightarrow>
        handle h a NewSnapshot r s = (Some (Inl HTTPBadRequest), s)
        \<and> (\<forall>n. fst (newSnapshot_at h a r s n) = Entry
               \<or> fst (newSnapshot_at h a r s n) = Finished (Inl HTTPBadRequest)))"
proof (intro conjI allI impI)
  fix n j
  assume v: "fst (newSnapshot_at h a r s n) = VerifyHeader j"
  from check_needs_free_gate [OF v]
  have free: "\<not> snapshot_lock s" "\<not> snapshot_inner_lock s" by simp_all
  from check_only_at_4 [OF free v] have n: "n = 4" and j: "json r = Inr j" by simp_all
  note fs = at_first_steps [OF free j, of h a]
  show "n = 4" by (rule n)
  show "\<not> snapshot_lock s" by (rule free(1))
  show "\<not> snapshot_inner_lock s" by (rule free(2))
  show "newSnapshot_at h a r s 2 = (AcquireOuter j, s)" by (rule fs(2))
  show "newSnapshot_at h a r s 3 = (AcquireInner j, s\<lparr>snapshot_lock := True\<rparr>)" by (rule fs(3))
  show "snd (newSnapshot_at h a r s n) = s\<lparr>snapshot_lock := True, snapshot_inner_lock := True\<rparr>"
    using n fs(4) by simp
next
  fix j
  assume "\<not> snapshot_lock s \<and> \<not> snapshot_inner_lock s \<and> json r = Inr j"
  then have free: "\<not> snapshot_lock s" "\<not> snapshot_inner_lock s" and j: "json r = Inr j"
    by simp_all
  from at_first_steps(4) [OF free j, of h a]
  show "fst (newSnapshot_at h a r s 4) = VerifyHeader j" by simp
next
  fix j
  assume "\<not> snapshot_lock s \<and> \<not> snapshot_inner_lock s \<and> json r = Inr j
          \<and> verifyHeader s r = Inl HTTPUnauthorized"
  then have free: "\<not> snapshot_lock s" "\<not> snapshot_inner_lock s" and j: "json r = Inr j"
    and u: "verifyHeader s r = Inl HTTPUnauthorized" by simp_all
  note fs = at_first_steps [OF free j, of h a]
  show "gate (snd (newSnapshot_at h a r s 4)) = (True, True)"
    using fs(4) by (simp add: gate_def)
  have "newSnapshot_at h a r s 5 = newSnapshot_step h a r (newSnapshot_at h a r s 4)"
    by (simp add: newSnapshot_at_def eval_nat_numeral)
  with fs(4) u show "newSnapshot_at h a r s 5
      = (ReleaseInner (Inl HTTPUnauthorized), s\<lparr>snapshot_lock := True, snapshot_inner_lock := True\<rparr>)"
    by simp
  from free j u show "handle h a NewSnapshot r s = (Some (Inl HTTPUnauthorized), s)"
    by (simp add: newSnapshot_run)
next
  fix res s'
  assume "handle h a NewSnapshot r s = (Some res, s')"
  then have "newSnapshot h a r s = (Some res, s')" by simp
  then show "gate s' = gate s" by (rule finished_restores_gate)
next
  assume "\<not> snapshot_lock s \<and> \<not> snapshot_inner_lock s"
  then have free: "\<not> snapshot_lock s" "\<not> snapshot_inner_lock s" by simp_all
  then have g: "gate s = (False, False)" by (simp add: gate_def)
  have "fst (newSnapshot h a r s) \<noteq> None"
    using free by (auto simp: newSnapshot_run split: sum.splits prod.splits)
  then obtain res where "fst (newSnapshot h a r s) = Some res" by auto
  moreover have "gate (snd (newSnapshot h a r s)) = (False, False)"
    using gate_newSnapshot [OF free(2), of h a r] g by simp
  ultimately show "\<exists>res s'. handle h a NewSnapshot r s = (Some res, s') \<and> gate s' = (False, False)"
    by (cases "newSnapshot h a r s") auto
next
  assume held: "snapshot_lock s"
  then show "handle h a NewSnapshot r s = (Some (Inl HTTPBadRequest), s)"
    by (simp add: newSnapshot_run)
next
  fix n
  assume held: "snapshot_lock s"
  show "fst (newSnapshot_at h a r s n) = Entry
        \<or> fst (newSnapshot_at h a r s n) = Finished (Inl HTTPBadRequest)"
  proof (cases n)
    case 0
    then show ?thesis by simp
  next
    case (Suc m)
    with newSnapshot_at_held [OF held, of h a r m] show ?thesis by simp
  qed
qed

theorem check_under_both_locks_witness:
  "\<not> snapshot_lock server0 \<and> \<not> snapshot_inner_lock server0
   \<and> json anonymous_create_request
       = Inr (PDict [(PStr ''name'', PStr ''nightly''), (PStr ''folders'', PList [PStr ''share''])])
   \<and> verifyHeader server0 anonymous_create_request = Inl HTTPUnauthorized
   \<and> fst (newSnapshot_at spec_helpers example_ambient anonymous_create_request server0 4)
       = VerifyHeader (PDict [(PStr ''name'', PStr ''nightly''), (PStr ''folders'', PList [PStr ''share''])])
   \<and> gate (snd (newSnapshot_at spec_helpers example_ambient anonymous_create_request server0 4))
       = (True, True)
   \<and> handle spec_helpers example_ambient NewSnapshot anonymous_create_request server0
       = (Some (Inl HTTPUnauthorized), server0)
   \<and> snapshot_lock blocked0
   \<and> handle spec_helpers example_ambient NewSnapshot anonymous_create_request blocked0
       = (Some (Inl HTTPBadRequest), blocked0)"
proof -
  have free: "\<not> snapshot_lock server0" "\<not> snapshot_inner_lock server0"
    by (simp_all add: server0_def init_def installAddon_def)
  have held: "snapshot_lock blocked0"
    by (simp add: blocked0_def toggleBlockSnapshot_def server0_def init_def installAddon_def
        lock_acquire_def)
  have j: "json anonymous_create_request
      = Inr (PDict [(PStr ''name'', PStr ''nightly''), (PStr ''folders'', PList [PStr ''share''])])"
    by (simp add: anonymous_create_request_def create_request_def)
  have u: "verifyHeader server0 anonymous_create_request = Inl HTTPUnauthorized"
    by (simp add: verifyHeader_def header_get_def anonymous_create_request_def create_request_def
        server0_def init_def installAddon_def)
  from check_under_both_locks [of spec_helpers example_ambient anonymous_create_request server0]
    free j u
  have at_free: "fst (newSnapshot_at spec_helpers example_ambient anonymous_create_request server0 4)
       = VerifyHeader (PDict [(PStr ''name'', PStr ''nightly''), (PStr ''folders'', PList [PStr ''share''])])
     \<and> gate (snd (newSnapshot_at spec_helpers example_ambient anonymous_create_request server0 4))
       = (True, True)
     \<and> handle spec_helpers example_ambient NewSnapshot anonymous_create_request server0
       = (Some (Inl HTTPUnauthorized), server0)"
    by blast
  from check_under_both_locks [of spec_helpers example_ambient anonymous_create_request blocked0]
    held
  have at_held: "handle spec_helpers example_ambient NewSnapshot anonymous_create_request blocked0
       = (Some (Inl HTTPBadRequest), blocked0)"
    by blast
  from free held j u at_free at_held show ?thesis by blast
qed

text \<open>
  C3, as stated, fails: on a server whose outer lock is held, a create-snapshot request
  with a valid credential finishes, answered HTTPBadRequest, and the outer lock is
  still held afterwards.
\<close>

theorem released_after_every_attempt_counterexample:
  "verifyHeader blocked0 create_request = Inr ()
   \<and> fst (handle spec_helpers example_ambient NewSnapshot create_request blocked0)
       = Some (Inl HTTPBadRequest)
   \<and> snapshot_lock (snd (handle spec_helpers example_ambient NewSnapshot create_request blocked0))"
proof -
  have held: "snapshot_lock blocked0"
    by (simp add: blocked0_def toggleBlockSnapshot_def server0_def init_def installAddon_def
        lock_acquire_def Let_def)
  have tok: "auth_token blocked0 = ''test_header''"
    by (simp add: blocked0_def toggleBlockSnapshot_def server0_def init_def installAddon_def
        lock_acquire_def Let_def)
  have v: "verifyHeader blocked0 create_request = Inr ()"
    by (rule token_verifies [OF tok]) (simp add: create_request_def)
  from held v show ?thesis by (simp add: newSnapshot_run)
qed

text \<open>
  C4. On a server that starts from \<open>__init__\<close> and on which any requests, to any
  handler, and any toggles follow one another, an identifier has a record iff it has
  bytes: the two dictionaries have the same keys, in the same order. The same holds
  at every statement of a creation that starts in such a state.
\<close>

theorem metadata_iff_bytes:
  "store_ok (run h ops (init aa p))
   \<and> (\<forall>k. dict_contains (snapshots (run h ops (init aa p))) k
           = dict_contains (snapshot_data (run h ops (init aa p))) k)
   \<and> (\<forall>n k. dict_contains (snapshots (snd (newSnapshot_at h a r (run h ops (init aa p)) n))) k
           = dict_contains (snapshot_data (snd (newSnapshot_at h a r (run h ops (init aa p)) n))) k)"
proof -
  have ok: "store_ok (run h ops (init aa p))"
    by (rule store_ok_run [OF store_ok_init])
  have at: "store_ok (snd (newSnapshot_at h a r (run h ops (init aa p)) n))" for n
    by (rule store_ok_at [OF ok])
  from ok store_ok_contains [OF ok] store_ok_contains [OF at]
  show ?thesis by simp
qed

theorem metadata_iff_bytes_witness:
  "dict_contains (snapshots (run spec_helpers [Request NewSnapshot example_ambient create_request] (init [] 1234)))
     (PStr ''aaaaaaaa'')
   \<and> dict_contains (snapshot_data (run spec_helpers [Request NewSnapshot example_ambient create_request] (init [] 1234)))
     (PStr ''aaaaaaaa'')"
proof -
  have "run spec_helpers [Request NewSnapshot example_ambient create_request] (init [] 1234) = created0"
    by (simp add: created0_def server0_def)
  with metadata_iff_bytes [of spec_helpers "[Request NewSnapshot example_ambient create_request]" "[]" 1234
      example_ambient create_request]
    example_creation(2)
  show ?thesis by (simp add: dict_contains_def)
qed

text \<open>
  C5, as amended. A request that carries neither the token header nor the bearer
  header, to any handler other than the add-on options with a slug that is not
  \<open>self\<close>, leaves the state as it was and is answered HTTPUnauthorized; except that a
  create-snapshot request is answered HTTPBadRequest when the outer lock is held as it
  arrives, and with the error of \<open>request.json()\<close> when its body cannot be read, both
  before the header is checked.
\<close>

theorem unauthorized_without_credential:
  assumes "header_get r ''X-Supervisor-Token'' \<noteq> Some (auth_token s)"
    and "header_get r ''Authorization'' \<noteq> Some (''Bearer '' @ auth_token s)"
    and "\<not> snapshot_inner_lock s"
    and "hdl = UpdateOptions \<longrightarrow> match_get r ''slug'' = PStr ''self''"
  shows "snd (handle h a hdl r s) = s
     \<and> (hdl \<noteq> NewSnapshot \<longrightarrow> fst (handle h a hdl r s) = Some (Inl HTTPUnauthorized))
     \<and> (hdl = NewSnapshot \<longrightarrow>
          fst (handle h a hdl r s) =
            (if snapshot_lock s then Some (Inl HTTPBadRequest)
             else case json r of
                    Inl e \<Rightarrow> Some (Inl e)
                  | Inr j \<Rightarrow> Some (Inl HTTPUnauthorized)))"
proof (cases "hdl = NewSnapshot")
  case True
  with no_credential [OF assms(1,2)] assms(3) show ?thesis
    by (simp add: newSnapshot_run split: sum.splits)
next
  case False
  with unauthorized_simple [OF no_credential [OF assms(1,2)] False assms(4), of h a]
  show ?thesis by simp
qed

theorem unauthorized_without_credential_witness:
  "header_get anonymous_create_request ''X-Supervisor-Token'' \<noteq> Some (auth_token server0)
   \<and> header_get anonymous_create_request ''Authorization'' \<noteq> Some (''Bearer '' @ auth_token server0)
   \<and> \<not> snapshot_inner_lock server0
   \<and> handle spec_helpers example_ambient GetSnapshots anonymous_create_request server0
       = (Some (Inl HTTPUnauthorized), server0)
   \<and> handle spec_helpers example_ambient NewSnapshot anonymous_create_request server0
       = (Some (Inl HTTPUnauthorized), server0)"
proof -
  have x: "header_get anonymous_create_request ''X-Supervisor-Token'' \<noteq> Some (auth_token server0)"
    and b: "header_get anonymous_create_request ''Authorization'' \<noteq> Some (''Bearer '' @ auth_token server0)"
    by (simp_all add: header_get_def anonymous_create_request_def create_request_def)
  have j: "json anonymous_create_request
      = Inr (PDict [(PStr ''name'', PStr ''nightly''), (PStr ''folders'', PList [PStr ''share''])])"
    by (simp add: anonymous_create_request_def create_request_def)
  from unauthorized_without_credential [OF x b server0_free(2), of GetSnapshots spec_helpers example_ambient]
    unauthorized_without_credential [OF x b server0_free(2), of NewSnapshot spec_helpers example_ambient]
    x b server0_free j
  show ?thesis by (simp add: prod_eq_iff)
qed

text \<open>
  C5, as stated, fails: on a server whose outer lock is held, a create-snapshot request
  without credentials is answered HTTPBadRequest, not HTTPUnauthorized.
\<close>

theorem unauthorized_everywhere_counterexample:
  "header_get anonymous_create_request ''X-Supervisor-Token'' = None
   \<and> header_get anonymous_create_request ''Authorization'' = None
   \<and> handle spec_helpers example_ambient NewSnapshot anonymous_create_request blocked0
       = (Some (Inl HTTPBadRequest), blocked0)
   \<and> HTTPBadRequest \<noteq> HTTPUnauthorized"
proof -
  have held: "snapshot_lock blocked0"
    by (simp add: blocked0_def toggleBlockSnapshot_def server0_def init_def installAddon_def
        lock_acquire_def)
  then show ?thesis
    by (simp add: newSnapshot_run header_get_def anonymous_create_request_def create_request_def)
qed

text \<open>
  The \<open>else\<close> branch of \<open>_updateOptions\<close> checks no header: a request without
  credentials changes the options of the add-on \<open>42\<close>.
\<close>

lemma options_of_other_addon_unchecked:
  "header_get anonymous_options_request ''X-Supervisor-Token'' = None
   \<and> header_get anonymous_options_request ''Authorization'' = None
   \<and> fst (handle spec_helpers example_ambient UpdateOptions anonymous_options_request server0)
       = Some (Inr (formatDataResponse (PDict [])))
   \<and> addons (snd (handle spec_helpers example_ambient UpdateOptions anonymous_options_request server0))
       \<noteq> addons server0"
  by (simp add: returns_def updateOptions_def header_get_def anonymous_options_request_def
      match_get_def server0_def init_def installAddon_def dict_update_def key_eq_def Let_def)

text \<open>
  C6. An upload with a valid credential never raises. If the buffered body decodes and
  the record carries a hashable \<open>slug\<close>, the record is stored under that slug together
  with the bytes, so the identifier of the stored record is the one decoded from the
  blob. If the body does not decode, the answer is the envelope
  \<open>{"result": "Bad snapshot"}\<close> and the state is unchanged; and whenever that envelope
  is the answer the state is unchanged.
\<close>

theorem upload_stores_or_handles:
  assumes "verifyHeader s r = Inr ()"
  shows "(\<forall>chunks received_bytes info slug.
            multipart r = Inr (Some chunks) \<and> read_chunks chunks [] = Inr received_bytes
            \<and> parseSnapshotInfo h received_bytes = Inr info
            \<and> py_getitem info ''slug'' = Inr slug \<and> hashable slug \<longrightarrow>
              uploadSnapshot h r s =
                (Inr (formatDataResponse (PDict [(PStr ''slug'', slug)])),
                 s\<lparr>snapshots := dict_set (snapshots s) slug info,
                   snapshot_data := dict_set (snapshot_data s) slug received_bytes\<rparr>)
              \<and> dict_get (snapshots (snd (uploadSnapshot h r s))) slug = Some info
              \<and> dict_get (snapshot_data (snd (uploadSnapshot h r s))) slug = Some received_bytes)
         \<and> (\<forall>chunks received_bytes e.
            multipart r = Inr (Some chunks) \<and> read_chunks chunks [] = Inr received_bytes
            \<and> parseSnapshotInfo h received_bytes = Inl e \<longrightarrow>
              uploadSnapshot h r s = (Inr (formatErrorResponse ''Bad snapshot''), s))
         \<and> (\<exists>resp. fst (uploadSnapshot h r s) = Inr resp)
         \<and> (fst (uploadSnapshot h r s) = Inr (formatErrorResponse ''Bad snapshot'') \<longrightarrow>
              snd (uploadSnapshot h r s) = s)"
  using assms
  by (auto simp: uploadSnapshot_def uploadSnapshot_try_def dict_setitem_def Let_def
      formatErrorResponse_def formatDataResponse_def
      split: sum.splits option.splits prod.splits)

theorem upload_stores_or_handles_witness:
  "verifyHeader server0 valid_upload = Inr ()
   \<and> verifyHeader server0 garbage_upload = Inr ()
   \<and> fst (uploadSnapshot spec_helpers valid_upload server0)
       = Inr (formatDataResponse (PDict [(PStr ''slug'', PStr ''abcd1234'')]))
   \<and> dict_get (snapshot_data (snd (uploadSnapshot spec_helpers valid_upload server0))) (PStr ''abcd1234'')
       = Some uploaded_blob
   \<and> (\<exists>info. dict_get (snapshots (snd (uploadSnapshot spec_helpers valid_upload server0))) (PStr ''abcd1234'')
         = Some info \<and> py_getitem info ''slug'' = Inr (PStr ''abcd1234''))
   \<and> uploadSnapshot spec_helpers garbage_upload server0
       = (Inr (formatErrorResponse ''Bad snapshot''), server0)"
proof -
  have v: "verifyHeader server0 valid_upload = Inr ()"
    by (rule token_verifies [OF server0_token]) (simp add: valid_upload_def upload_request_def)
  have g: "verifyHeader server0 garbage_upload = Inr ()"
    by (rule token_verifies [OF server0_token]) (simp add: garbage_upload_def upload_request_def)
  have mv: "multipart valid_upload = Inr (Some [Inr uploaded_blob])"
    by (simp add: valid_upload_def upload_request_def)
  have rv: "read_chunks [Inr uploaded_blob] [] = Inr uploaded_blob"
    by (rule read_one_chunk) (simp add: uploaded_blob_def Encode_nonempty)
  have mg: "multipart garbage_upload = Inr (Some [Inr ''garbage''])"
    by (simp add: garbage_upload_def upload_request_def)
  have rg: "read_chunks [Inr ''garbage''] [] = Inr ''garbage''"
    by simp
  let ?m = "\<lparr>md_id = ''abcd1234'', md_name = ''uploaded'', md_created_at = 7,
        md_size = length uploaded_blob,
        md_included_folders = [], md_included_addons = [],
        md_protected = True, md_partial = False\<rparr>"
  have pv: "parseSnapshotInfo spec_helpers uploaded_blob = Inr (metadata_info ?m)"
    by (simp add: uploaded_blob_def spec_parse_Encode)
  have sl: "py_getitem (metadata_info ?m) ''slug'' = Inr (PStr ''abcd1234'')"
    by (simp add: slug_of_metadata_info)
  from upload_stores_or_handles [OF v, of spec_helpers] mv rv pv sl
  have valid: "uploadSnapshot spec_helpers valid_upload server0 =
                (Inr (formatDataResponse (PDict [(PStr ''slug'', PStr ''abcd1234'')])),
                 server0\<lparr>snapshots := dict_set (snapshots server0) (PStr ''abcd1234'') (metadata_info ?m),
                   snapshot_data := dict_set (snapshot_data server0) (PStr ''abcd1234'') uploaded_blob\<rparr>)"
    by simp
  from upload_stores_or_handles [OF g, of spec_helpers] mg rg spec_parse_garbage
  have bad: "uploadSnapshot spec_helpers garbage_upload server0
       = (Inr (formatErrorResponse ''Bad snapshot''), server0)"
    by blast
  from v g bad sl show ?thesis
    by (simp add: valid)
qed

text \<open>
  C7. With the codec, \<open>generateId\<close> and \<open>serve_bytes\<close> modelled from the spec: after
  a successful creation the identifier in the response resolves at the detail and at
  the download endpoint, and the downloaded bytes decode to a record with that
  identifier, the name the request gave (or the default) and the protection flag the
  request established: protected iff a password was given and is not empty.
\<close>

theorem creation_round_trip:
  assumes "handle spec_helpers a NewSnapshot r s = (Some (Inr resp), s')"
    and "verifyHeader s' q = Inr ()"
    and "match_get q ''slug'' = PStr (generateId a 8)"
  shows "resp = formatDataResponse (PDict [(PStr ''slug'', PStr (generateId a 8))])
     \<and> (\<exists>j name passwd m data.
          json r = Inr j
          \<and> py_get j ''name'' (PStr ''Default name'') = Inr (PStr name)
          \<and> py_get j ''password'' PNone = Inr passwd
          \<and> snapshotDetail q s' = (Inr (formatDataResponse (metadata_info m)), s')
          \<and> snapshotDownload spec_helpers q s' = (Inr (BytesResponse data), s')
          \<and> Decode data = Inr m
          \<and> md_id m = generateId a 8
          \<and> md_name m = name
          \<and> md_protected m = (passwd \<noteq> PNone \<and> passwd \<noteq> PStr []))"
proof -
  from assms(1) obtain j where j: "json r = Inr j"
    and b: "newSnapshot_body spec_helpers a j s = (Inr resp, s')"
    by (auto simp: newSnapshot_run split: if_splits sum.splits prod.splits)
  from spec_body_success [OF b] obtain n passwd p folders fs addns as where
    n: "py_get j ''name'' (PStr ''Default name'') = Inr (PStr n)"
    and pw: "py_get j ''password'' PNone = Inr passwd" "opt_str passwd = Some p"
    and resp: "resp = formatDataResponse (PDict [(PStr ''slug'', PStr (generateId a 8))])"
    and s': "s' = s\<lparr>snapshots := dict_set (snapshots s) (PStr (generateId a 8))
                  (metadata_info
                    \<lparr>md_id = generateId a 8, md_name = n, md_created_at = time_now a,
                     md_size = length (Encode (generateId a 8) n (time_now a)
                                 (nat (drawn_pad_size a s)) fs as p),
                     md_included_folders = fs, md_included_addons = as,
                     md_protected = (p \<noteq> []),
                     md_partial = (fs \<noteq> [] \<or> as \<noteq> [])\<rparr>),
             snapshot_data := dict_set (snapshot_data s) (PStr (generateId a 8))
                  (Encode (generateId a 8) n (time_now a) (nat (drawn_pad_size a s)) fs as p)\<rparr>"
    by blast
  let ?data = "Encode (generateId a 8) n (time_now a) (nat (drawn_pad_size a s)) fs as p"
  let ?m = "\<lparr>md_id = generateId a 8, md_name = n, md_created_at = time_now a,
             md_size = length ?data,
             md_included_folders = fs, md_included_addons = as,
             md_protected = (p \<noteq> []),
             md_partial = (fs \<noteq> [] \<or> as \<noteq> [])\<rparr>"
  have detail: "snapshotDetail q s' = (Inr (formatDataResponse (metadata_info ?m)), s')"
    using assms(2,3) by (simp add: snapshotDetail_def s')
  have download: "snapshotDownload spec_helpers q s' = (Inr (BytesResponse ?data), s')"
    using assms(2,3) by (simp add: snapshotDownload_def s' spec_helpers_def spec_serve_bytes_def)
  have dec: "Decode ?data = Inr ?m"
    by (rule Decode_Encode)
  have prot: "md_protected ?m = (passwd \<noteq> PNone \<and> passwd \<noteq> PStr [])"
    using opt_str_cases [OF pw(2)] by auto
  from j n pw(1) detail download dec prot resp show ?thesis
    by (intro conjI exI [of _ j] exI [of _ n] exI [of _ passwd] exI [of _ ?m] exI [of _ ?data])
      simp_all
qed

theorem creation_round_trip_witness:
  "handle spec_helpers example_ambient NewSnapshot create_request server0 =
     (Some (Inr (formatDataResponse (PDict [(PStr ''slug'', PStr ''aaaaaaaa'')]))), created0)
   \<and> verifyHeader created0 (snapshot_request ''aaaaaaaa'') = Inr ()
   \<and> match_get (snapshot_request ''aaaaaaaa'') ''slug'' = PStr (generateId example_ambient 8)
   \<and> (\<exists>m data.
        snapshotDownload spec_helpers (snapshot_request ''aaaaaaaa'') created0
          = (Inr (BytesResponse data), created0)
        \<and> snapshotDetail (snapshot_request ''aaaaaaaa'') created0
          = (Inr (formatDataResponse (metadata_info m)), created0)
        \<and> Decode data = Inr m
        \<and> md_id m = ''aaaaaaaa'' \<and> md_name m = ''nightly'' \<and> md_protected m = False)"
proof -
  have v: "verifyHeader created0 (snapshot_request ''aaaaaaaa'') = Inr ()"
    by (rule token_verifies [OF example_creation(3)]) (simp add: snapshot_request_def)
  have m: "match_get (snapshot_request ''aaaaaaaa'') ''slug'' = PStr (generateId example_ambient 8)"
    by (simp add: match_get_def snapshot_request_def example_id)
  have j: "json create_request
      = Inr (PDict [(PStr ''name'', PStr ''nightly''), (PStr ''folders'', PList [PStr ''share''])])"
    by (simp add: create_request_def)
  from creation_round_trip [OF example_creation(1) v m] j
  have "\<exists>m data.
        snapshotDownload spec_helpers (snapshot_request ''aaaaaaaa'') created0
          = (Inr (BytesResponse data), created0)
        \<and> snapshotDetail (snapshot_request ''aaaaaaaa'') created0
          = (Inr (formatDataResponse (metadata_info m)), created0)
        \<and> Decode data = Inr m
        \<and> md_id m = ''aaaaaaaa'' \<and> md_name m = ''nightly'' \<and> md_protected m = False"
    by (auto simp: py_get_def key_eq_def example_id)
  with example_creation(1) v m show ?thesis by simp
qed

text \<open>
  C8. On a store whose two dictionaries go together, and with a valid credential: for
  an identifier that is not in the store, detail, download and delete raise
  HTTPNotFound and leave the state as it was; for one that is, delete answers
  \<open>deleted\<close>, removes it from both dictionaries, and afterwards detail and download of
  it raise HTTPNotFound and the list no longer has its record.
\<close>

theorem unknown_is_not_found_and_delete_removes:
  assumes "verifyHeader s r = Inr ()" and "store_ok s"
  shows "(\<not> dict_contains (snapshots s) (match_get r ''slug'') \<longrightarrow>
            snapshotDetail r s = (Inl HTTPNotFound, s)
            \<and> snapshotDownload h r s = (Inl HTTPNotFound, s)
            \<and> deleteSnapshot r s = (Inl HTTPNotFound, s))
         \<and> (dict_contains (snapshots s) (match_get r ''slug'') \<longrightarrow>
            fst (deleteSnapshot r s) = Inr (formatDataResponse (PStr ''deleted''))
            \<and> snapshots (snd (deleteSnapshot r s)) = dict_del (snapshots s) (match_get r ''slug'')
            \<and> snapshot_data (snd (deleteSnapshot r s)) = dict_del (snapshot_data s) (match_get r ''slug'')
            \<and> (\<forall>q. verifyHeader s q = Inr () \<and> match_get q ''slug'' = match_get r ''slug'' \<longrightarrow>
                  snapshotDetail q (snd (deleteSnapshot r s))
                    = (Inl HTTPNotFound, snd (deleteSnapshot r s))
                  \<and> snapshotDownload h q (snd (deleteSnapshot r s))
                    = (Inl HTTPNotFound, snd (deleteSnapshot r s))
                  \<and> getSnapshots q (snd (deleteSnapshot r s))
                    = (Inr (formatDataResponse (PDict [(PStr ''snapshots'',
                          PList (map snd (dict_del (snapshots s) (match_get r ''slug''))))])),
                       snd (deleteSnapshot r s))))"
proof (intro conjI impI)
  assume absent: "\<not> dict_contains (snapshots s) (match_get r ''slug'')"
  with store_ok_contains [OF assms(2), of "match_get r ''slug''"]
  have absent': "\<not> dict_contains (snapshot_data s) (match_get r ''slug'')" by simp
  from absent assms(1) show "snapshotDetail r s = (Inl HTTPNotFound, s)"
    by (simp add: snapshotDetail_def dict_contains_def)
  from absent' assms(1) show "snapshotDownload h r s = (Inl HTTPNotFound, s)"
    by (simp add: snapshotDownload_def dict_contains_def)
  from absent assms(1) show "deleteSnapshot r s = (Inl HTTPNotFound, s)"
    by (simp add: deleteSnapshot_ok [OF assms(2)])
next
  assume present: "dict_contains (snapshots s) (match_get r ''slug'')"
  let ?s' = "s\<lparr>snapshots := dict_del (snapshots s) (match_get r ''slug''),
               snapshot_data := dict_del (snapshot_data s) (match_get r ''slug'')\<rparr>"
  from present assms(1)
  have del: "deleteSnapshot r s = (Inr (formatDataResponse (PStr ''deleted'')), ?s')"
    by (simp add: deleteSnapshot_ok [OF assms(2)])
  show "fst (deleteSnapshot r s) = Inr (formatDataResponse (PStr ''deleted''))"
    by (simp add: del)
  show "snapshots (snd (deleteSnapshot r s)) = dict_del (snapshots s) (match_get r ''slug'')"
    by (simp add: del)
  show "snapshot_data (snd (deleteSnapshot r s)) = dict_del (snapshot_data s) (match_get r ''slug'')"
    by (simp add: del)
  show "\<forall>q. verifyHeader s q = Inr () \<and> match_get q ''slug'' = match_get r ''slug'' \<longrightarrow>
                  snapshotDetail q (snd (deleteSnapshot r s))
                    = (Inl HTTPNotFound, snd (deleteSnapshot r s))
                  \<and> snapshotDownload h q (snd (deleteSnapshot r s))
                    = (Inl HTTPNotFound, snd (deleteSnapshot r s))
                  \<and> getSnapshots q (snd (deleteSnapshot r s))
                    = (Inr (formatDataResponse (PDict [(PStr ''snapshots'',
                          PList (map snd (dict_del (snapshots s) (match_get r ''slug''))))])),
                       snd (deleteSnapshot r s))"
    by (simp add: del snapshotDetail_def snapshotDownload_def getSnapshots_def)
qed

theorem unknown_is_not_found_and_delete_removes_witness:
  "verifyHeader created0 (snapshot_request ''aaaaaaaa'') = Inr ()
   \<and> verifyHeader created0 (snapshot_request ''zzzzzzzz'') = Inr ()
   \<and> store_ok created0
   \<and> dict_contains (snapshots created0) (match_get (snapshot_request ''aaaaaaaa'') ''slug'')
   \<and> \<not> dict_contains (snapshots created0) (match_get (snapshot_request ''zzzzzzzz'') ''slug'')
   \<and> snapshotDetail (snapshot_request ''zzzzzzzz'') created0 = (Inl HTTPNotFound, created0)
   \<and> deleteSnapshot (snapshot_request ''zzzzzzzz'') created0 = (Inl HTTPNotFound, created0)
   \<and> fst (deleteSnapshot (snapshot_request ''aaaaaaaa'') created0)
       = Inr (formatDataResponse (PStr ''deleted''))
   \<and> snapshotDetail (snapshot_request ''aaaaaaaa'')
        (snd (deleteSnapshot (snapshot_request ''aaaaaaaa'') created0))
       = (Inl HTTPNotFound, snd (deleteSnapshot (snapshot_request ''aaaaaaaa'') created0))
   \<and> snapshotDownload spec_helpers (snapshot_request ''aaaaaaaa'')
        (snd (deleteSnapshot (snapshot_request ''aaaaaaaa'') created0))
       = (Inl HTTPNotFound, snd (deleteSnapshot (snapshot_request ''aaaaaaaa'') created0))"
proof -
  have present: "dict_contains (snapshots created0) (match_get (snapshot_request ''aaaaaaaa'') ''slug'')"
    by (simp add: dict_contains_keys created0_keys snapshot_request_slug)
  have absent: "\<not> dict_contains (snapshots created0) (match_get (snapshot_request ''zzzzzzzz'') ''slug'')"
    by (simp add: dict_contains_keys created0_keys snapshot_request_slug key_eq_def)
  from unknown_is_not_found_and_delete_removes
      [OF created0_verifies created0_ok, of "''aaaaaaaa''" spec_helpers]
    unknown_is_not_found_and_delete_removes
      [OF created0_verifies created0_ok, of "''zzzzzzzz''" spec_helpers]
    present absent created0_verifies created0_ok
  show ?thesis by simp
qed

text \<open>
  C9, as amended. With the codec and \<open>generateId\<close> modelled from the spec and the
  sizes of \<open>__init__\<close>: a successful creation answers with the generated identifier,
  which has 8 characters; the pad size it draws, \<open>int(random.uniform(min, max))\<close>,
  lies between 3 MiB and 5 MiB; and the blob of the download endpoint is the container
  followed by the padding, so its size is the pad size plus the length of the
  container, and more than 3 MiB.
\<close>

theorem creation_sizes:
  assumes "handle spec_helpers a NewSnapshot r s = (Some (Inr resp), s')"
    and "min_snapshot_size s = 3 * 1024 * 1024" and "max_snapshot_size s = 5 * 1024 * 1024"
    and "0 \<le> random_random a" and "random_random a < 1"
    and "generateId a = spec_generateId draws"
    and "verifyHeader s' q = Inr ()" and "match_get q ''slug'' = PStr (generateId a 8)"
  shows "resp = formatDataResponse (PDict [(PStr ''slug'', PStr (generateId a 8))])
     \<and> length (generateId a 8) = 8
     \<and> 3 * 1024 * 1024 \<le> drawn_pad_size a s \<and> drawn_pad_size a s \<le> 5 * 1024 * 1024
     \<and> (\<exists>name folders addns passwd.
          download_size spec_helpers q s'
            = Some (length (container (generateId a 8) name (time_now a) folders addns passwd)
                    + nat (drawn_pad_size a s))
          \<and> 3 * 1024 * 1024
               < length (container (generateId a 8) name (time_now a) folders addns passwd)
                 + nat (drawn_pad_size a s))"
proof -
  from assms(1) obtain j where j: "json r = Inr j"
    and b: "newSnapshot_body spec_helpers a j s = (Inr resp, s')"
    by (auto simp: newSnapshot_run split: if_splits sum.splits prod.splits)
  from spec_body_success [OF b] obtain n p fs as where
    resp: "resp = formatDataResponse (PDict [(PStr ''slug'', PStr (generateId a 8))])"
    and d: "snapshot_data s' = dict_set (snapshot_data s) (PStr (generateId a 8))
                  (Encode (generateId a 8) n (time_now a) (nat (drawn_pad_size a s)) fs as p)"
    by auto
  from drawn_pad_size_range [of s a] assms(2-5)
  have range: "3 * 1024 * 1024 \<le> drawn_pad_size a s" "drawn_pad_size a s \<le> 5 * 1024 * 1024"
    by simp_all
  have size: "download_size spec_helpers q s'
      = Some (length (container (generateId a 8) n (time_now a) fs as p) + nat (drawn_pad_size a s))"
    by (subst download_size_of [OF assms(7),
          where data = "Encode (generateId a 8) n (time_now a) (nat (drawn_pad_size a s)) fs as p"])
      (simp_all add: d assms(8) length_Encode)
  have big: "3 * 1024 * 1024
      < length (container (generateId a 8) n (time_now a) fs as p) + nat (drawn_pad_size a s)"
    using container_nonempty [of "generateId a 8" n "time_now a" fs as p] range(1) by linarith
  have len: "length (generateId a 8) = 8"
    by (simp add: assms(6) length_spec_generateId)
  from resp len range size big show ?thesis by blast
qed

theorem creation_sizes_witness:
  "handle spec_helpers example_ambient NewSnapshot create_request server0 =
     (Some (Inr (formatDataResponse (PDict [(PStr ''slug'', PStr ''aaaaaaaa'')]))), created0)
   \<and> min_snapshot_size server0 = 3 * 1024 * 1024
   \<and> max_snapshot_size server0 = 5 * 1024 * 1024
   \<and> 0 \<le> random_random example_ambient \<and> random_random example_ambient < 1
   \<and> generateId example_ambient = spec_generateId (\<lambda>i. 0)
   \<and> verifyHeader created0 (snapshot_request ''aaaaaaaa'') = Inr ()
   \<and> match_get (snapshot_request ''aaaaaaaa'') ''slug'' = PStr (generateId example_ambient 8)
   \<and> length (generateId example_ambient 8) = 8
   \<and> drawn_pad_size example_ambient server0 = 4194304
   \<and> download_size spec_helpers (snapshot_request ''aaaaaaaa'') created0 = Some 4194331"
proof -
  have cfg: "min_snapshot_size server0 = 3 * 1024 * 1024" "max_snapshot_size server0 = 5 * 1024 * 1024"
    by (simp_all add: server0_def init_def installAddon_def)
  have draw: "0 \<le> random_random example_ambient" "random_random example_ambient < 1"
    "generateId example_ambient = spec_generateId (\<lambda>i. 0)"
    by (simp_all add: example_ambient_def)
  have v: "verifyHeader created0 (snapshot_request ''aaaaaaaa'') = Inr ()"
    by (rule token_verifies [OF example_creation(3)]) (simp add: snapshot_request_def)
  have m: "match_get (snapshot_request ''aaaaaaaa'') ''slug'' = PStr (generateId example_ambient 8)"
    by (simp add: match_get_def snapshot_request_def example_id)
  have size: "download_size spec_helpers (snapshot_request ''aaaaaaaa'') created0 = Some 4194331"
    by (subst download_size_of [OF v,
          where data = "Encode ''aaaaaaaa'' ''nightly'' 0 4194304 [''share''] [] []"])
      (simp_all add: example_creation(2) m example_id length_Encode container_example
        del: replicate.simps)
  from creation_sizes [OF example_creation(1) cfg draw v m] cfg draw v m size
    example_creation(1) example_pad
  show ?thesis by simp
qed

text \<open>
  C9, as stated, fails: with the draw \<open>2097151 / 2097152\<close> the pad size is 5 MiB less
  one byte, and the blob of the download endpoint has 5242906 bytes, more than 5 MiB.
\<close>

theorem creation_sizes_counterexample:
  "min_snapshot_size server0 = 3 * 1024 * 1024
   \<and> max_snapshot_size server0 = 5 * 1024 * 1024
   \<and> 0 \<le> random_random large_ambient \<and> random_random large_ambient < 1
   \<and> fst (handle spec_helpers large_ambient NewSnapshot create_request server0)
       = Some (Inr (formatDataResponse (PDict [(PStr ''slug'', PStr ''aaaaaaaa'')])))
   \<and> download_size spec_helpers (snapshot_request ''aaaaaaaa'')
        (snd (handle spec_helpers large_ambient NewSnapshot create_request server0))
       = Some 5242906
   \<and> \<not> (5242906 \<le> (5 * 1024 * 1024 :: nat))"
proof -
  have cfg: "min_snapshot_size server0 = 3 * 1024 * 1024" "max_snapshot_size server0 = 5 * 1024 * 1024"
    by (simp_all add: server0_def init_def installAddon_def)
  have draw: "0 \<le> random_random large_ambient" "random_random large_ambient < 1"
    by (simp_all add: large_ambient_def)
  have v: "verifyHeader server0 (snapshot_request ''aaaaaaaa'') = Inr ()"
    by (rule token_verifies [OF server0_token]) (simp add: snapshot_request_def)
  have m: "match_get (snapshot_request ''aaaaaaaa'') ''slug'' = PStr ''aaaaaaaa''"
    by (simp add: match_get_def snapshot_request_def)
  have size: "download_size spec_helpers (snapshot_request ''aaaaaaaa'')
        (snd (handle spec_helpers large_ambient NewSnapshot create_request server0))
       = Some 5242906"
    by (subst download_size_of [where data = "Encode ''aaaaaaaa'' ''nightly'' 0 5242879 [''share''] [] []"])
      (simp_all add: creation_on_server0 large_id large_pad example_time v m length_Encode
        container_example del: replicate.simps)
  from cfg draw size show ?thesis
    by (simp add: creation_on_server0 large_id)
qed

text \<open>
  C10. An upload with a valid credential whose body decodes to a record with the slug
  of a snapshot already in the store succeeds: the record and the bytes under that
  slug are the uploaded ones, the keys of both dictionaries are what they were, so no
  entry is added, and every other entry is untouched.
\<close>

theorem upload_replaces_existing:
  assumes "verifyHeader s r = Inr ()" and "store_ok s"
    and "multipart r = Inr (Some chunks)"
    and "read_chunks chunks [] = Inr received_bytes"
    and "parseSnapshotInfo h received_bytes = Inr info"
    and "py_getitem info ''slug'' = Inr slug"
    and "dict_contains (snapshots s) slug"
  shows "fst (uploadSnapshot h r s) = Inr (formatDataResponse (PDict [(PStr ''slug'', slug)]))
     \<and> dict_get (snapshots (snd (uploadSnapshot h r s))) slug = Some info
     \<and> dict_get (snapshot_data (snd (uploadSnapshot h r s))) slug = Some received_bytes
     \<and> map fst (snapshots (snd (uploadSnapshot h r s))) = map fst (snapshots s)
     \<and> map fst (snapshot_data (snd (uploadSnapshot h r s))) = map fst (snapshot_data s)
     \<and> (\<forall>k. \<not> key_eq slug k \<longrightarrow>
            dict_get (snapshots (snd (uploadSnapshot h r s))) k = dict_get (snapshots s) k
            \<and> dict_get (snapshot_data (snd (uploadSnapshot h r s))) k = dict_get (snapshot_data s) k)
     \<and> store_ok (snd (uploadSnapshot h r s))"
proof -
  have hs: "hashable slug"
    by (rule store_ok_hashable [OF assms(2,7)])
  have c: "dict_contains (snapshot_data s) slug"
    using store_ok_contains [OF assms(2), of slug] assms(7) by simp
  have up: "uploadSnapshot h r s =
      (Inr (formatDataResponse (PDict [(PStr ''slug'', slug)])),
       s\<lparr>snapshots := dict_set (snapshots s) slug info,
         snapshot_data := dict_set (snapshot_data s) slug received_bytes\<rparr>)"
    using assms(1,3-6) hs
    by (simp add: uploadSnapshot_def uploadSnapshot_try_def dict_setitem_def Let_def)
  have ok: "store_ok (snd (uploadSnapshot h r s))"
    by (rule store_ok_upload [OF assms(2)])
  from assms(7) c ok show ?thesis
    by (simp add: up keys_dict_set dict_get_set_other)
qed

theorem upload_replaces_existing_witness:
  "verifyHeader created0 replacing_upload = Inr ()
   \<and> store_ok created0
   \<and> dict_contains (snapshots created0) (PStr ''aaaaaaaa'')
   \<and> fst (uploadSnapshot spec_helpers replacing_upload created0)
       = Inr (formatDataResponse (PDict [(PStr ''slug'', PStr ''aaaaaaaa'')]))
   \<and> dict_get (snapshot_data (snd (uploadSnapshot spec_helpers replacing_upload created0)))
        (PStr ''aaaaaaaa'') = Some replacing_blob
   \<and> map fst (snapshots (snd (uploadSnapshot spec_helpers replacing_upload created0)))
       = [PStr ''aaaaaaaa'']"
proof -
  have v: "verifyHeader created0 replacing_upload = Inr ()"
    by (rule token_verifies [OF example_creation(3)])
      (simp add: replacing_upload_def upload_request_def)
  have m: "multipart replacing_upload = Inr (Some [Inr replacing_blob])"
    by (simp add: replacing_upload_def upload_request_def)
  have rd: "read_chunks [Inr replacing_blob] [] = Inr replacing_blob"
    by (rule read_one_chunk) (simp add: replacing_blob_def Encode_nonempty)
  let ?m = "\<lparr>md_id = ''aaaaaaaa'', md_name = ''replacement'', md_created_at = 9,
        md_size = length replacing_blob,
        md_included_folders = [], md_included_addons = [],
        md_protected = False, md_partial = False\<rparr>"
  have p: "parseSnapshotInfo spec_helpers replacing_blob = Inr (metadata_info ?m)"
    by (simp add: replacing_blob_def spec_parse_Encode)
  have sl: "py_getitem (metadata_info ?m) ''slug'' = Inr (PStr ''aaaaaaaa'')"
    by (simp add: slug_of_metadata_info)
  have present: "dict_contains (snapshots created0) (PStr ''aaaaaaaa'')"
    by (simp add: dict_contains_keys created0_keys)
  from upload_replaces_existing [OF v created0_ok m rd p sl present] v created0_ok present
  show ?thesis by (simp add: created0_keys)
qed

end
